theory Spec2Isabelle
  imports Main
begin

section \<open>Values of the property tree\<close>

text \<open>
  A JavaScript string is a \<open>string\<close>. A number is an \<open>int\<close>: the integer-valued
  numbers of the safe range, which \<open>String\<close> renders in plain decimal. A valid
  \<open>Date\<close> object is given by the two texts that the code can observe of it, the one
  that \<open>toISOString()\<close> returns and the one that \<open>String\<close> returns. Numbers with
  a fractional part and the invalid date are not represented. An array holds scalars,
  as the property tree of the repository does. An object is the list of its own
  properties in enumeration order; its keys are distinct.
\<close>

datatype scalar = SStr string | SBool bool | SNum int | SDate string string

datatype jsval = Scalar scalar | Arr "scalar list" | Node "(string \<times> jsval) list"

type_synonym props = "(string \<times> jsval) list"

abbreviation bslash :: char where
  "bslash \<equiv> CHR 0x5C"

subsection \<open>Constants of \<open>core/constants\<close>\<close>

text \<open>
  Modelled from the spec: the module \<open>core/constants\<close> (\<open>VALUE_TYPE\<close>, \<open>PROP\<close>) is
  not among the sources. The value type tags are the JCR type names string, boolean,
  long-integer, double and date; the property names are the JCR and CQ audit
  properties and the primary-type marker.
\<close>

definition VALUE_TYPE_string :: string where "VALUE_TYPE_string = ''String''"
definition VALUE_TYPE_boolean :: string where "VALUE_TYPE_boolean = ''Boolean''"
definition VALUE_TYPE_long :: string where "VALUE_TYPE_long = ''Long''"
definition VALUE_TYPE_double :: string where "VALUE_TYPE_double = ''Double''"
definition VALUE_TYPE_date :: string where "VALUE_TYPE_date = ''Date''"

definition PROP_jcrPrimaryType :: string where "PROP_jcrPrimaryType = ''jcr:primaryType''"

definition internalProps :: "string list" where
  "internalProps =
     [''jcr:created'', ''jcr:createdBy'', ''jcr:lastModified'', ''jcr:lastModifiedBy'',
      ''cq:lastModified'', ''cq:lastModifiedBy'', ''cq:lastReplicated'',
      ''cq:lastReplicatedBy'', ''cq:lastReplicationAction'']"

subsection \<open>\<open>String(value)\<close>\<close>

definition digitChar :: "nat \<Rightarrow> char" where
  "digitChar d = ''0123456789'' ! d"

fun natToString :: "nat \<Rightarrow> string" where
  "natToString n = (if n < 10 then [digitChar n] else natToString (n div 10) @ [digitChar (n mod 10)])"

declare natToString.simps [simp del]

definition numToString :: "int \<Rightarrow> string" where
  "numToString n = (if n < 0 then CHR ''-'' # natToString (nat (- n)) else natToString (nat n))"

fun join :: "string \<Rightarrow> string list \<Rightarrow> string" where
  "join sep [] = []"
| "join sep [x] = x"
| "join sep (x # y # ys) = x @ sep @ join sep (y # ys)"

fun scalarToString :: "scalar \<Rightarrow> string" where
  "scalarToString (SStr s) = s"
| "scalarToString (SBool b) = (if b then ''true'' else ''false'')"
| "scalarToString (SNum n) = numToString n"
| "scalarToString (SDate isoText text) = text"

text \<open>\<open>String(value)\<close>; \<open>None\<close> is the value \<open>undefined\<close> of an absent property.\<close>

fun js_String :: "jsval option \<Rightarrow> string" where
  "js_String None = ''undefined''"
| "js_String (Some (Scalar s)) = scalarToString s"
| "js_String (Some (Arr xs)) = join '','' (map scalarToString xs)"
| "js_String (Some (Node kvs)) = ''[object Object]''"

subsection \<open>Value codec: type tags and formatting\<close>

fun scalarType :: "scalar \<Rightarrow> string" where
  "scalarType (SStr s) = VALUE_TYPE_string"
| "scalarType (SBool b) = VALUE_TYPE_boolean"
| "scalarType (SNum n) = VALUE_TYPE_long"
| "scalarType (SDate isoText text) = VALUE_TYPE_date"

text \<open>
  \<open>getJcrValueType\<close>. Of an array it reads \<open>value[0]\<close>, which is \<open>undefined\<close> in the
  empty array and has the type \<open>''\<close>; the object and \<open>undefined\<close> fall through the
  switch to \<open>''\<close>.
\<close>

fun getJcrValueType :: "jsval option \<Rightarrow> string" where
  "getJcrValueType None = ''''"
| "getJcrValueType (Some (Scalar s)) = scalarType s"
| "getJcrValueType (Some (Arr xs)) =
     (let type = (case xs of [] \<Rightarrow> '''' | x # _ \<Rightarrow> scalarType x)
      in if type = '''' then '''' else type @ ''[]'')"
| "getJcrValueType (Some (Node kvs)) = ''''"

text \<open>\<open>value.toISOString()\<close>, called on the values of type date only.\<close>

fun toISOString :: "jsval option \<Rightarrow> string" where
  "toISOString (Some (Scalar (SDate isoText text))) = isoText"
| "toISOString v = js_String v"

definition formatJcrValue :: "jsval option \<Rightarrow> string" where
  "formatJcrValue v =
     (if getJcrValueType v = VALUE_TYPE_date then toISOString v else js_String v)"

text \<open>
  \<open>s.replace(/^[\[{]/, '\\$1')\<close>: the pattern has no capture group, so the \<open>$1\<close> of
  the replacement text is not a group reference and stands for itself; the matched
  character is replaced by the three characters backslash, dollar, one.
\<close>

fun escapeLeading :: "string \<Rightarrow> string" where
  "escapeLeading [] = []"
| "escapeLeading (c # cs) =
     (if c = CHR ''['' \<or> c = CHR ''{'' then bslash # ''$1'' @ cs else c # cs)"

text \<open>\<open>s.replace(/,/g, '\\,')\<close>\<close>

fun escapeCommas :: "string \<Rightarrow> string" where
  "escapeCommas [] = []"
| "escapeCommas (c # cs) =
     (if c = CHR '','' then bslash # CHR '','' # escapeCommas cs else c # escapeCommas cs)"

text \<open>
  \<open>serializeJcrValue\<close>. The test \<open>value[0] === ''\<close> holds of the empty string only.
\<close>

fun serializeJcrValue :: "jsval \<Rightarrow> string" where
  "serializeJcrValue (Arr xs) =
     (if xs = [SStr ''''] then ''['' @ [bslash] @ ''0]''
      else ''['' @ join '','' (map (\<lambda>v. escapeCommas (formatJcrValue (Some (Scalar v)))) xs) @ '']'')"
| "serializeJcrValue v = escapeLeading (formatJcrValue (Some v))"

subsection \<open>Value codec: parsing\<close>

definition isDigit :: "char \<Rightarrow> bool" where
  "isDigit c = (c \<in> set ''0123456789'')"

definition isHexDigit :: "char \<Rightarrow> bool" where
  "isHexDigit c = (c \<in> set ''0123456789abcdefABCDEF'')"

text \<open>\<open>\w\<close>\<close>

definition isWordChar :: "char \<Rightarrow> bool" where
  "isWordChar c =
     (c \<in> set ''abcdefghijklmnopqrstuvwxyzABCDEFGHIJKLMNOPQRSTUVWXYZ0123456789_'')"

text \<open>\<open>parseInt(c, 16)\<close> of one hexadecimal digit.\<close>

definition hexVal :: "char \<Rightarrow> nat" where
  "hexVal c =
     (if isDigit c then of_char c - 48
      else if c \<in> set ''abcdef'' then of_char c - 87
      else of_char c - 55)"

text \<open>
  \<open>value.replace(/\\(u([0-9a-f]{4})|[,\\\[\{])/gi, v => v[2] ? String.fromCodePoint(parseInt(v[2], 16)) : v[1])\<close>.
  The callback receives the matched text \<open>v\<close>: \<open>v[1]\<close> is its second character and
  \<open>v[2]\<close> its third, which exists in the six-character match \<open>\uXXXX\<close> only and
  is the first of the four hexadecimal digits there.
\<close>

definition isUnicodeEscape :: "string \<Rightarrow> bool" where
  "isUnicodeEscape cs =
     (5 \<le> length cs \<and> (hd cs = CHR ''u'' \<or> hd cs = CHR ''U'') \<and>
      list_all isHexDigit (take 4 (tl cs)))"

fun unescape :: "string \<Rightarrow> string" where
  "unescape [] = []"
| "unescape (c # cs) =
     (if c = bslash \<and> isUnicodeEscape cs
        then char_of (hexVal (cs ! 1)) # unescape (drop 5 cs)
      else if c = bslash \<and> cs \<noteq> [] \<and> hd cs \<in> set ('',[{'' @ [bslash])
        then hd cs # unescape (tl cs)
      else c # unescape cs)"

text \<open>
  A text against a shape: \<open>d\<close> in the shape stands for one decimal digit, every
  other character for itself.
\<close>

fun hasShape :: "string \<Rightarrow> string \<Rightarrow> bool" where
  "hasShape [] [] = True"
| "hasShape (c # cs) (p # ps) = ((if p = CHR ''d'' then isDigit c else c = p) \<and> hasShape cs ps)"
| "hasShape _ _ = False"

text \<open>
  \<open>/^(\d{4})-(\d{2})-(\d{2})T(\d{2}):(\d{2}):(\d{2}(?:\.\d*)?)((-(\d{2}):(\d{2})|Z)?)$/.test(value)\<close>
\<close>

definition isDateText :: "string \<Rightarrow> bool" where
  "isDateText s =
     (hasShape (take 19 s) ''dddd-dd-ddTdd:dd:dd'' \<and>
      (let r = drop 19 s;
           z = (case r of [] \<Rightarrow> r | c # ds \<Rightarrow> if c = CHR ''.'' then dropWhile isDigit ds else r)
       in z = [] \<or> z = ''Z'' \<or> hasShape z ''-dd:dd''))"

text \<open>
  \<open>+value\<close>, the conversion of a text to a number. The result is \<open>NaN\<close>, or a
  number that this model represents (a plain decimal integer text of the safe range),
  or another number: one written with a fraction, an exponent, a radix prefix or as
  \<open>Infinity\<close>, or beyond the safe range; the model recognises such a text and does not
  compute its value.
\<close>

datatype jsnumber = NaN | Num int | OtherNumber

definition isWhiteSpace :: "char \<Rightarrow> bool" where
  "isWhiteSpace c = ((of_char c :: nat) \<in> set [9, 10, 11, 12, 13, 32, 160])"

definition trimWhiteSpace :: "string \<Rightarrow> string" where
  "trimWhiteSpace s = rev (dropWhile isWhiteSpace (rev (dropWhile isWhiteSpace s)))"

definition digitsToInt :: "string \<Rightarrow> int" where
  "digitsToInt ds = foldl (\<lambda>a c. 10 * a + (of_char c - 48)) 0 ds"

definition isExponentPart :: "string \<Rightarrow> bool" where
  "isExponentPart r =
     (case r of [] \<Rightarrow> False
      | e # ds \<Rightarrow> (e = CHR ''e'' \<or> e = CHR ''E'') \<and>
          (let ds' = (case ds of [] \<Rightarrow> ds | g # gs \<Rightarrow> if g = CHR ''+'' \<or> g = CHR ''-'' then gs else ds)
           in ds' \<noteq> [] \<and> list_all isDigit ds'))"

text \<open>\<open>StrUnsignedDecimalLiteral\<close>, with the sign that preceded it.\<close>

definition unsignedDecimal :: "int \<Rightarrow> string \<Rightarrow> jsnumber" where
  "unsignedDecimal sign u =
     (if u = ''Infinity'' then OtherNumber
      else
        let ip = takeWhile isDigit u;
            r1 = dropWhile isDigit u;
            hasDot = (r1 \<noteq> [] \<and> hd r1 = CHR ''.'');
            fp = (if hasDot then takeWhile isDigit (tl r1) else []);
            r2 = (if hasDot then dropWhile isDigit (tl r1) else r1)
        in if \<not> (ip \<noteq> [] \<or> fp \<noteq> []) then NaN
           else if r2 \<noteq> [] \<and> \<not> isExponentPart r2 then NaN
           else if hasDot \<or> r2 \<noteq> [] then OtherNumber
           else if digitsToInt ip \<le> 9007199254740991 then Num (sign * digitsToInt ip)
           else OtherNumber)"

text \<open>\<open>NonDecimalIntegerLiteral\<close>: \<open>0x\<close>, \<open>0o\<close> and \<open>0b\<close> with their digits.\<close>

definition isNonDecimalLiteral :: "string \<Rightarrow> bool" where
  "isNonDecimalLiteral t =
     (case t of
        z # x # ds \<Rightarrow> z = CHR ''0'' \<and> ds \<noteq> [] \<and>
          ((x \<in> set ''xX'' \<and> list_all isHexDigit ds) \<or>
           (x \<in> set ''oO'' \<and> list_all (\<lambda>c. c \<in> set ''01234567'') ds) \<or>
           (x \<in> set ''bB'' \<and> list_all (\<lambda>c. c \<in> set ''01'') ds))
      | _ \<Rightarrow> False)"

definition toNumber :: "string \<Rightarrow> jsnumber" where
  "toNumber s =
     (let t = trimWhiteSpace s
      in case t of [] \<Rightarrow> Num 0
         | c # u \<Rightarrow>
             if isNonDecimalLiteral t then OtherNumber
             else if c = CHR ''+'' then unsignedDecimal 1 u
             else if c = CHR ''-'' then unsignedDecimal (- 1) u
             else unsignedDecimal 1 t)"

text \<open>
  \<open>parseJcrValue\<close>. The result \<open>None\<close> stands for a value that this model does not
  represent: the \<open>Date\<close> object that \<open>new Date(value)\<close> builds, and a number other
  than a safe integer written in plain decimal (\<open>NaN\<close> among them).
\<close>

definition parseJcrValue :: "string \<Rightarrow> string \<Rightarrow> scalar option" where
  "parseJcrValue value0 typeHint0 =
     (let value = unescape value0;
          typeHint =
            (if typeHint0 = [] then
               (if value = ''true'' \<or> value = ''false'' then VALUE_TYPE_boolean
                else if isDateText value then VALUE_TYPE_date
                else if value \<noteq> [] \<and> toNumber value \<noteq> NaN then VALUE_TYPE_double
                else typeHint0)
             else typeHint0)
      in if typeHint = VALUE_TYPE_boolean then Some (SBool (value = ''true''))
         else if typeHint = VALUE_TYPE_date then None
         else if typeHint = VALUE_TYPE_double \<or> typeHint = VALUE_TYPE_long then
           (case toNumber value of Num n \<Rightarrow> Some (SNum n) | _ \<Rightarrow> None)
         else if value = [bslash, CHR ''0''] then Some (SStr [])
         else Some (SStr value))"

text \<open>
  The second alternative \<open>((?:\\[,\]]|[^,\]])*)(?=,|\])\<close> of the array pattern, matched
  at the head of a text by the backtracking of the regular expression: one more
  repetition is tried first, the escaped pair before the single character, and the
  lookahead when no repetition leads to a match. The result is the matched text.
\<close>

fun matchElement :: "string \<Rightarrow> string option" where
  "matchElement [] = None"
| "matchElement (c # cs) =
     (case (if c = bslash \<and> cs \<noteq> [] \<and> (hd cs = CHR '','' \<or> hd cs = CHR '']'')
            then map_option (\<lambda>m. c # hd cs # m) (matchElement (tl cs)) else None) of
        Some m \<Rightarrow> Some m
      | None \<Rightarrow>
          (case (if c \<noteq> CHR '','' \<and> c \<noteq> CHR '']''
                 then map_option (\<lambda>m. c # m) (matchElement cs) else None) of
             Some m \<Rightarrow> Some m
           | None \<Rightarrow> if c = CHR '','' \<or> c = CHR '']'' then Some [] else None))"

text \<open>The pattern \<open>/^\[|((?:\\[,\]]|[^,\]])*)(?=,|\])/\<close> matched at the position \<open>q\<close>.\<close>

definition matchAt :: "string \<Rightarrow> nat \<Rightarrow> string option" where
  "matchAt str q =
     (if q = 0 \<and> str \<noteq> [] \<and> hd str = CHR ''['' then Some ''[''
      else matchElement (drop q str))"

text \<open>
  The loop over \<open>str.matchAll(...)\<close>: \<open>p\<close> is the position at which the search for
  the next match starts (after an empty match it is advanced by one), \<open>lastIndex\<close>
  is the variable of that name in the loop body, and the result lists the texts of
  the matches pushed to \<open>matches\<close>.
\<close>

function collectMatches :: "string \<Rightarrow> nat \<Rightarrow> nat \<Rightarrow> string list" where
  "collectMatches str p lastIndex =
     (if length str \<le> p then []
      else case matchAt str p of
             None \<Rightarrow> collectMatches str (p + 1) lastIndex
           | Some m \<Rightarrow>
               (let next = (if m = [] then p + 1 else p + length m)
                in if p > lastIndex then m # collectMatches str next (p + length m)
                   else collectMatches str next lastIndex))"
  by pat_completeness auto
termination
  by (relation "measure (\<lambda>(str, p, lastIndex). length str - p)") (auto split: if_splits simp: neq_Nil_conv)

declare collectMatches.simps [simp del]

text \<open>\<open>/^\{(\w+)\}/\<close>: the type name and the rest of the text after the prefix.\<close>

definition typeHintPrefix :: "string \<Rightarrow> (string \<times> string) option" where
  "typeHintPrefix str =
     (case str of [] \<Rightarrow> None
      | c # r \<Rightarrow>
          (let w = takeWhile isWordChar r; r' = dropWhile isWordChar r
           in if c = CHR ''{'' \<and> w \<noteq> [] \<and> r' \<noteq> [] \<and> hd r' = CHR ''}''
              then Some (w, tl r') else None))"

record unserialized =
  u_value :: "jsval option"
  u_typeHint :: string

text \<open>
  \<open>unserializeJcrValue\<close>, called with no \<open>matches\<close> array or an empty one. The value
  is \<open>None\<close> when \<open>parseJcrValue\<close> gives a value that the model does not represent.
\<close>

definition unserializeJcrValue :: "string \<Rightarrow> unserialized" where
  "unserializeJcrValue str0 =
     (let (typeHint, str) = (case typeHintPrefix str0 of Some (w, r) \<Rightarrow> (w, r) | None \<Rightarrow> ([], str0));
          isArray = (str \<noteq> [] \<and> hd str = CHR ''['');
          value =
            (if isArray
             then map_option Arr (those (map (\<lambda>m. parseJcrValue m typeHint) (collectMatches str 0 0)))
             else map_option Scalar (parseJcrValue str typeHint))
      in \<lparr> u_value = value,
           u_typeHint = (if typeHint = [] then typeHint else typeHint @ (if isArray then ''[]'' else [])) \<rparr>)"


section \<open>Repository access\<close>

subsection \<open>The transport\<close>

text \<open>
  The errors that the code throws and catches. \<open>FetchError\<close> carries the HTTP status
  of the response; \<open>TransportError\<close> is any other failure of the transport, with its
  message; \<open>RuntimeError\<close> is an error raised by the JavaScript runtime or by the
  form-data library on a value it does not accept; \<open>AssertionError\<close> is a failed
  \<open>assert\<close>; \<open>OperationError head cause\<close> is the error of that class whose message is
  \<open>head\<close>, a colon, and the message of \<open>cause\<close>.
\<close>

datatype exn =
    FetchError nat
  | TransportError string
  | RuntimeError
  | AssertionError
  | OperationError string exn

text \<open>
  The fields of a form, in the order of the calls of \<open>formData.append(name, value)\<close>.
  The form is non-empty (\<open>getLengthSync()\<close> is not zero) as soon as one field was
  appended.
\<close>

type_synonym formdata = "(string \<times> jsval) list"

datatype request = GetJSON string | Post string formdata

text \<open>
  The transport is the external collaborator behind \<open>client.fetchJSON\<close> and
  \<open>client.post\<close>: it answers a request, given the requests issued before it, with an
  error or with the parsed JSON document, which for a node is its property tree and
  for a write the list \<open>changes\<close> of changed paths. A \<open>Uri\<close> is modelled by its path.
\<close>

record transport =
  fetchJSON :: "request list \<Rightarrow> string \<Rightarrow> exn + props"
  post :: "request list \<Rightarrow> string \<Rightarrow> formdata \<Rightarrow> exn + string list"

text \<open>The requests issued so far, and the array \<open>changes\<close> of \<open>saveJcrProperties\<close>.\<close>

record session =
  requests :: "request list"
  changes :: "string list"

datatype outcome = Returned | Threw exn

definition CRX_ROOT :: string where
  "CRX_ROOT = ''/crx/server/crx.default/jcr:root''"

definition FETCH_FILTER :: nat where "FETCH_FILTER = 1"
definition FETCH_FILTER_CHILDREN :: nat where "FETCH_FILTER_CHILDREN = 2"
definition FETCH_RECURSIVE :: nat where "FETCH_RECURSIVE = 4"

datatype FetchMode = Normal | Property | Children | Recursive | RecursiveChildren

fun modeBits :: "FetchMode \<Rightarrow> nat" where
  "modeBits Normal = 0"
| "modeBits Property = FETCH_FILTER"
| "modeBits Children = or FETCH_FILTER FETCH_FILTER_CHILDREN"
| "modeBits Recursive = FETCH_RECURSIVE"
| "modeBits RecursiveChildren = or (or FETCH_FILTER FETCH_FILTER_CHILDREN) FETCH_RECURSIVE"

text \<open>
  \<open>isChildNode(data, i)\<close>, on the value \<open>data[i]\<close>: \<open>typeof\<close> is \<open>'object'\<close> for an
  object, an array and a \<open>Date\<close>, and the array is excluded.
\<close>

fun isChildNode :: "jsval option \<Rightarrow> bool" where
  "isChildNode (Some (Node kvs)) = True"
| "isChildNode (Some (Scalar (SDate isoText text))) = True"
| "isChildNode _ = False"

text \<open>
  \<open>cleanData\<close> of \<open>fetchJcrNode\<close>. The source deletes from \<open>data\<close> in place; the model
  returns the object that \<open>data\<close> is afterwards.
\<close>

function cleanData :: "props \<Rightarrow> bool \<Rightarrow> bool \<Rightarrow> props" where
  "cleanData [] keepChildren recursive = []"
| "cleanData ((i, v) # rest) keepChildren recursive =
     (if isChildNode (Some v) \<noteq> keepChildren then cleanData rest keepChildren recursive
      else if keepChildren \<and> recursive then
        (i, (case v of Node c \<Rightarrow> Node (cleanData c True True) | _ \<Rightarrow> v))
          # cleanData rest keepChildren recursive
      else (i, v) # cleanData rest keepChildren recursive)"
  by pat_completeness auto
termination
  by (relation "measure (\<lambda>(d, k, r). size (Node d))") auto

definition fetchUrl :: "string \<Rightarrow> int \<Rightarrow> string" where
  "fetchUrl path depth =
     CRX_ROOT @ path @ (if depth < 0 then [] else ''.'' @ numToString depth) @ ''.json''"

text \<open>
  \<open>fetchJcrNode(jcrPath, mode, depth)\<close>; the default of \<open>depth\<close> is \<open>-1\<close>. The result is
  the value or the error, and the requests with the one issued here.
\<close>

definition fetchJcrNode ::
  "transport \<Rightarrow> string \<Rightarrow> FetchMode \<Rightarrow> int \<Rightarrow> request list \<Rightarrow> (exn + props) \<times> request list"
where
  "fetchJcrNode t jcrPath mode depth0 reqs =
     (let depth = (if and (modeBits mode) FETCH_RECURSIVE = 0
                   then int (drop_bit 1 (and (modeBits mode) FETCH_FILTER_CHILDREN))
                   else depth0);
          url = fetchUrl jcrPath depth
      in case fetchJSON t reqs url of
           Inl err \<Rightarrow> (Inl err, reqs @ [GetJSON url])
         | Inr data \<Rightarrow>
             (Inr (if and (modeBits mode) FETCH_FILTER \<noteq> 0
                   then cleanData data (and (modeBits mode) FETCH_FILTER_CHILDREN \<noteq> 0)
                          (and (modeBits mode) FETCH_RECURSIVE \<noteq> 0)
                   else data),
              reqs @ [GetJSON url]))"


subsection \<open>Saving properties\<close>

record SaveOptions =
  ignoreProps :: "string list"
  deleteProps :: bool
  deleteChildren :: bool

text \<open>The truth value of a JavaScript value in a condition.\<close>

fun truthy :: "jsval option \<Rightarrow> bool" where
  "truthy None = False"
| "truthy (Some (Scalar (SStr s))) = (s \<noteq> [])"
| "truthy (Some (Scalar (SBool b))) = b"
| "truthy (Some (Scalar (SNum n))) = (n \<noteq> 0)"
| "truthy (Some (Scalar (SDate isoText text))) = True"
| "truthy (Some (Arr xs)) = True"
| "truthy (Some (Node kvs)) = True"

text \<open>\<open>i[0] === ':'\<close>\<close>

definition startsWithColon :: "string \<Rightarrow> bool" where
  "startsWithColon i = (i \<noteq> [] \<and> hd i = CHR '':'')"

text \<open>\<open>ignoredProps.forEach(v => delete data[v])\<close>\<close>

definition deleteKeys :: "string list \<Rightarrow> props \<Rightarrow> props" where
  "deleteKeys ks data = filter (\<lambda>(k, v). k \<notin> set ks) data"

text \<open>
  The first loop of \<open>processNode\<close>, over the keys of \<open>currentData\<close>. It carries
  \<open>properties\<close>, \<open>childrenToDelete\<close> and \<open>formData\<close>. A key copied into \<open>properties\<close>
  starts with a colon and is new there, so it comes last in the enumeration order.
\<close>

fun scanCurrent ::
  "SaveOptions \<Rightarrow> props \<Rightarrow> props \<Rightarrow> string list \<Rightarrow> formdata \<Rightarrow> props \<times> string list \<times> formdata"
where
  "scanCurrent options [] properties childrenToDelete formData =
     (properties, childrenToDelete, formData)"
| "scanCurrent options ((i, v) # rest) properties childrenToDelete formData =
     (if map_of properties i = None then
        (if startsWithColon i then
           scanCurrent options rest (properties @ [(i, v)]) childrenToDelete formData
         else if isChildNode (Some v) then
           (if deleteChildren options
            then scanCurrent options rest properties (childrenToDelete @ [i]) formData
            else scanCurrent options rest properties childrenToDelete formData)
         else if deleteProps options then
           (if truthy (map_of properties PROP_jcrPrimaryType)
            then scanCurrent options rest properties childrenToDelete
                   (formData @ [(i @ ''@Delete'', Scalar (SStr []))])
            else scanCurrent options rest properties childrenToDelete formData)
         else scanCurrent options rest properties childrenToDelete formData)
      else scanCurrent options rest properties childrenToDelete formData)"

text \<open>\<open>x.length\<close> and \<open>x[j]\<close> of a value that may be absent.\<close>

fun js_length :: "jsval option \<Rightarrow> jsval option" where
  "js_length (Some (Arr ys)) = Some (Scalar (SNum (int (length ys))))"
| "js_length (Some (Scalar (SStr s))) = Some (Scalar (SNum (int (length s))))"
| "js_length (Some (Node kvs)) = map_of kvs ''length''"
| "js_length _ = None"

fun js_index :: "jsval option \<Rightarrow> nat \<Rightarrow> jsval option" where
  "js_index (Some (Arr ys)) j = (if j < length ys then Some (Scalar (ys ! j)) else None)"
| "js_index (Some (Scalar (SStr s))) j = (if j < length s then Some (Scalar (SStr [s ! j])) else None)"
| "js_index (Some (Node kvs)) j = map_of kvs (natToString j)"
| "js_index _ j = None"

text \<open>
  \<open>v === w\<close> for a scalar \<open>v\<close> of the desired tree. Two \<open>Date\<close> objects are equal
  when they are the same object, which an element of the desired tree and a value
  of the fetched data never are.
\<close>

fun strictEq :: "scalar \<Rightarrow> jsval option \<Rightarrow> bool" where
  "strictEq (SStr a) (Some (Scalar (SStr b))) = (a = b)"
| "strictEq (SBool a) (Some (Scalar (SBool b))) = (a = b)"
| "strictEq (SNum a) (Some (Scalar (SNum b))) = (a = b)"
| "strictEq _ _ = False"

text \<open>\<open>value.every((v, j) => v === cur[j])\<close>, from the index \<open>j\<close> on.\<close>

fun everyEq :: "scalar list \<Rightarrow> nat \<Rightarrow> jsval option \<Rightarrow> bool" where
  "everyEq [] j cur = True"
| "everyEq (v # vs) j cur = (strictEq v (js_index cur j) \<and> everyEq vs (Suc j) cur)"

text \<open>
  \<open>typeHint = properties[':' + i] || getJcrValueType(value)\<close> and the field it adds;
  \<open>valueType\<close> is the type of what \<open>value\<close> holds at that point.
\<close>

definition typeHintFor :: "props \<Rightarrow> string \<Rightarrow> string \<Rightarrow> jsval" where
  "typeHintFor properties i valueType =
     (case map_of properties ('':'' @ i) of
        Some h \<Rightarrow> if truthy (Some h) then h else Scalar (SStr valueType)
      | None \<Rightarrow> Scalar (SStr valueType))"

definition appendTypeHint :: "props \<Rightarrow> string \<Rightarrow> string \<Rightarrow> formdata \<Rightarrow> formdata" where
  "appendTypeHint properties i valueType formData =
     (let typeHint = typeHintFor properties i valueType
      in if truthy (Some typeHint) then formData @ [(i @ ''@TypeHint'', typeHint)] else formData)"

text \<open>
  The body of the second loop for one key \<open>i\<close> of \<open>properties\<close> with its value. It
  carries \<open>childProps\<close> and \<open>formData\<close>, and throws where \<open>forEach\<close> is called on a
  current value that is no array.
\<close>

definition diffEntry ::
  "props \<Rightarrow> props \<Rightarrow> string \<Rightarrow> jsval \<Rightarrow> props \<times> formdata \<Rightarrow> exn + props \<times> formdata"
where
  "diffEntry currentData properties i value acc =
     (let childProps = fst acc; formData = snd acc; cur = map_of currentData i
      in if startsWithColon i then Inr acc
         else case value of
           Arr vs \<Rightarrow>
             if Some (Scalar (SNum (int (length vs)))) = js_length cur \<and> everyEq vs 0 cur
             then Inr acc
             else if vs = [] \<and> truthy (js_length cur) then
               (case cur of
                  Some (Arr ys) \<Rightarrow>
                    Inr (childProps,
                         appendTypeHint properties i (getJcrValueType (Some value))
                           (formData @ [(i @ ''@Patch'', Scalar (SStr ''true''))]
                              @ map (\<lambda>v. (i, Scalar (SStr (''-'' @ formatJcrValue (Some (Scalar v)))))) ys))
                | _ \<Rightarrow> Inl RuntimeError)
             else
               Inr (childProps,
                    appendTypeHint properties i (getJcrValueType (Some value))
                      (formData @ map (\<lambda>v. (i, Scalar (SStr (formatJcrValue (Some (Scalar v)))))) vs))
         | _ \<Rightarrow>
             if getJcrValueType (Some value) = [] then
               Inr (childProps @ [(i, value)],
                    appendTypeHint properties i (getJcrValueType (Some value)) formData)
             else
               (let text = formatJcrValue (Some value)
                in if text = formatJcrValue cur then Inr acc
                   else Inr (childProps,
                             appendTypeHint properties i (getJcrValueType (Some (Scalar (SStr text))))
                               (formData @ [(i, Scalar (SStr text))]))))"

text \<open>The second loop, over the keys of \<open>properties\<close> after the first loop.\<close>

fun diffProperties ::
  "props \<Rightarrow> props \<Rightarrow> props \<Rightarrow> props \<times> formdata \<Rightarrow> exn + props \<times> formdata"
where
  "diffProperties currentData properties [] acc = Inr acc"
| "diffProperties currentData properties ((i, value) # rest) acc =
     (case diffEntry currentData properties i value acc of
        Inl err \<Rightarrow> Inl err
      | Inr acc' \<Rightarrow> diffProperties currentData properties rest acc')"


text \<open>
  \<open>Uri.joinPath(jcrPath, name)\<close>, for a path without a trailing slash and a name that
  is one path segment.
\<close>

definition joinPath :: "string \<Rightarrow> string \<Rightarrow> string" where
  "joinPath jcrPath name = jcrPath @ ''/'' @ name"

definition issue :: "request \<Rightarrow> session \<Rightarrow> session" where
  "issue r s = s \<lparr> requests := requests s @ [r] \<rparr>"

text \<open>\<open>deleteJcrNode\<close>\<close>

definition deleteJcrNode :: "transport \<Rightarrow> string \<Rightarrow> session \<Rightarrow> outcome \<times> session" where
  "deleteJcrNode t jcrPath s =
     (let formData = [('':operation'', Scalar (SStr ''delete''))]
      in case post t (requests s) jcrPath formData of
           Inl err \<Rightarrow>
             (Threw (OperationError (''Unable to delete '' @ jcrPath) err),
              issue (Post jcrPath formData) s)
         | Inr res \<Rightarrow>
             (if res = [] then Threw (OperationError (''Unable to delete '' @ jcrPath) AssertionError)
              else Returned,
              issue (Post jcrPath formData) s))"

text \<open>
  \<open>Promise.all(childrenToDelete.map(v => deleteJcrNode(Uri.joinPath(jcrPath, v))))\<close>:
  every request is issued, in the order of the array, and the promise is rejected
  with the error of a delete that failed; the model takes the first in that order.
\<close>

fun deleteChildNodes :: "transport \<Rightarrow> string \<Rightarrow> string list \<Rightarrow> session \<Rightarrow> outcome \<times> session" where
  "deleteChildNodes t jcrPath [] s = (Returned, s)"
| "deleteChildNodes t jcrPath (v # vs) s =
     (case deleteJcrNode t (joinPath jcrPath v) s of
        (r, s1) \<Rightarrow>
          (case deleteChildNodes t jcrPath vs s1 of
             (r', s2) \<Rightarrow> ((case r of Threw err \<Rightarrow> Threw err | Returned \<Rightarrow> r'), s2)))"

text \<open>
  The deletes of one level: \<open>if (childrenToDelete[0]) await Promise.all(...)\<close>. The
  condition reads the first name, which is falsy when it is the empty text.
\<close>

definition deleteStep :: "transport \<Rightarrow> string \<Rightarrow> string list \<Rightarrow> session \<Rightarrow> outcome \<times> session" where
  "deleteStep t jcrPath childrenToDelete s =
     (if childrenToDelete \<noteq> [] \<and> hd childrenToDelete \<noteq> []
      then deleteChildNodes t jcrPath childrenToDelete s else (Returned, s))"

text \<open>
  The \<open>try\<close> block at the head of \<open>processNode\<close>: the current data, empty when the
  server answers 404.
\<close>

definition fetchCurrent :: "transport \<Rightarrow> string \<Rightarrow> session \<Rightarrow> (exn + props) \<times> session" where
  "fetchCurrent t jcrPath s =
     (case fetchJcrNode t jcrPath Normal (- 1) (requests s) of
        (Inl err, reqs) \<Rightarrow>
          (if err = FetchError 404 then Inr [] else Inl err, s \<lparr> requests := reqs \<rparr>)
      | (Inr data, reqs) \<Rightarrow> (Inr data, s \<lparr> requests := reqs \<rparr>))"

text \<open>
  The part of \<open>processNode\<close> between the fetch and the write: the copy of the
  properties, the removal of the ignored ones, the two loops and the order field.
  The result is \<open>childProps\<close>, \<open>childrenToDelete\<close>, \<open>formData\<close> and the current data
  without the ignored properties.
\<close>

definition ignoredProps :: "SaveOptions \<Rightarrow> string list" where
  "ignoredProps options = internalProps @ ignoreProps options"

definition buildMutation ::
  "SaveOptions \<Rightarrow> props \<Rightarrow> props \<Rightarrow> nat option \<Rightarrow> exn + props \<times> string list \<times> formdata"
where
  "buildMutation options currentData0 properties0 order =
     (let currentData = deleteKeys (ignoredProps options) currentData0;
          properties1 = deleteKeys (ignoredProps options) properties0
      in case scanCurrent options currentData properties1 [] [] of
           (properties, childrenToDelete, formData0) \<Rightarrow>
             (case diffProperties currentData properties properties ([], formData0) of
                Inl err \<Rightarrow> Inl err
              | Inr (childProps, formData1) \<Rightarrow>
                  Inr (childProps, childrenToDelete,
                       (case order of
                          None \<Rightarrow> formData1
                        | Some n \<Rightarrow> formData1 @ [('':order'', Scalar (SStr (natToString n)))]))))"

text \<open>
  \<open>Object.keys(currentData).filter(v => childProps[v]).some((v, i) => keys[i] !== v)\<close>
\<close>

fun someDiffers :: "string list \<Rightarrow> string list \<Rightarrow> bool" where
  "someDiffers keys [] = False"
| "someDiffers [] (v # vs) = True"
| "someDiffers (k # keys) (v # vs) = (k \<noteq> v \<or> someDiffers keys vs)"

definition needsReorder :: "props \<Rightarrow> props \<Rightarrow> bool" where
  "needsReorder currentData childProps =
     someDiffers (map fst childProps)
       (filter (\<lambda>v. truthy (map_of childProps v)) (map fst currentData))"

text \<open>The write of one level: \<open>client.post(jcrPath, formData)\<close> when the form is not empty.\<close>

definition postMutation :: "transport \<Rightarrow> string \<Rightarrow> formdata \<Rightarrow> session \<Rightarrow> outcome \<times> session" where
  "postMutation t jcrPath formData s =
     (if formData \<noteq> [] then
        (case post t (requests s) jcrPath formData of
           Inl err \<Rightarrow> (Threw err, issue (Post jcrPath formData) s)
         | Inr res \<Rightarrow> (Returned, (issue (Post jcrPath formData) s) \<lparr> changes := changes s @ res \<rparr>))
      else (Returned, s))"

text \<open>\<open>{ ...properties }\<close>\<close>

fun spread :: "jsval \<Rightarrow> props" where
  "spread (Node kvs) = kvs"
| "spread _ = []"


text \<open>
  The children of the desired tree are among its own entries: the first loop adds
  keys that start with a colon only, and the second loop takes as children the
  objects under the other keys.
\<close>

definition isChildEntry :: "string \<times> jsval \<Rightarrow> bool" where
  "isChildEntry kv = (\<not> startsWithColon (fst kv) \<and> (case snd kv of Node c \<Rightarrow> True | _ \<Rightarrow> False))"

lemma scalarType_nonempty: "scalarType x \<noteq> []"
  by (cases x) (simp_all add: VALUE_TYPE_string_def VALUE_TYPE_boolean_def
      VALUE_TYPE_long_def VALUE_TYPE_date_def)

lemma diffEntry_childProps:
  "diffEntry currentData properties i value acc = Inr acc' \<Longrightarrow>
   fst acc' = fst acc @ filter isChildEntry [(i, value)]"
  by (cases "value")
     (auto simp: diffEntry_def isChildEntry_def Let_def scalarType_nonempty
           split: if_splits option.splits jsval.splits)

lemma diffProperties_childProps:
  "diffProperties currentData properties xs acc = Inr acc' \<Longrightarrow>
   fst acc' = fst acc @ filter isChildEntry xs"
proof (induction xs arbitrary: acc)
  case Nil
  then show ?case by simp
next
  case (Cons x xs)
  obtain i v where x: "x = (i, v)" by (cases x)
  from Cons.prems x obtain mid where
    mid: "diffEntry currentData properties i v acc = Inr mid" and
    rest: "diffProperties currentData properties xs mid = Inr acc'"
    by (auto split: sum.splits)
  from diffEntry_childProps [OF mid] Cons.IH [OF rest] x show ?case
    by simp
qed

lemma scanCurrent_children:
  "filter isChildEntry (fst (scanCurrent options cur properties ctd fd)) =
   filter isChildEntry properties"
  by (induction options cur properties ctd fd rule: scanCurrent.induct)
     (auto simp: isChildEntry_def)

lemma size_filter_props: "size (Node (filter P xs)) \<le> size (Node xs)"
  by (induction xs) auto

lemma buildMutation_size:
  assumes "buildMutation options currentData0 properties0 order = Inr (childProps, ctd, fd)"
  shows "size (Node childProps) \<le> size (Node properties0)"
proof -
  let ?cur = "deleteKeys (ignoredProps options) currentData0"
  let ?p1 = "deleteKeys (ignoredProps options) properties0"
  obtain p ctd0 fd0 where sc: "scanCurrent options ?cur ?p1 [] [] = (p, ctd0, fd0)"
    by (cases "scanCurrent options ?cur ?p1 [] []") auto
  from assms sc obtain fd1 where
    dp: "diffProperties ?cur p p ([], fd0) = Inr (childProps, fd1)"
    by (auto simp: buildMutation_def Let_def split: sum.splits prod.splits)
  from diffProperties_childProps [OF dp] have "childProps = filter isChildEntry p"
    by simp
  also have "\<dots> = filter isChildEntry ?p1"
    using scanCurrent_children [of options ?cur ?p1 "[]" "[]"] sc by simp
  finally have "childProps = filter isChildEntry (filter (\<lambda>(k, v). k \<notin> set (ignoredProps options)) properties0)"
    by (simp add: deleteKeys_def)
  then show ?thesis
    using size_filter_props [of isChildEntry "filter (\<lambda>(k, v). k \<notin> set (ignoredProps options)) properties0"]
          size_filter_props [of "\<lambda>(k, v). k \<notin> set (ignoredProps options)" properties0]
    by simp
qed

text \<open>
  \<open>processNode\<close>, and the loop over the keys of \<open>childProps\<close> at its end, which calls
  \<open>processNode\<close> for one child after the other and stops at the first that throws.
  \<open>order\<close> is \<open>None\<close> for \<open>false\<close>.
\<close>

function processNode ::
    "transport \<Rightarrow> SaveOptions \<Rightarrow> string \<Rightarrow> props \<Rightarrow> nat option \<Rightarrow> session \<Rightarrow> outcome \<times> session"
  and processChildren ::
    "transport \<Rightarrow> SaveOptions \<Rightarrow> string \<Rightarrow> bool \<Rightarrow> nat \<Rightarrow> props \<Rightarrow> session \<Rightarrow> outcome \<times> session"
where
  "processNode t options jcrPath properties0 order s =
     (case fetchCurrent t jcrPath s of
        (Inl err, s1) \<Rightarrow> (Threw err, s1)
      | (Inr currentData0, s1) \<Rightarrow>
          (case buildMutation options currentData0 properties0 order of
             Inl err \<Rightarrow> (Threw err, s1)
           | Inr (childProps, childrenToDelete, formData) \<Rightarrow>
               (case postMutation t jcrPath formData s1 of
                  (Threw err, s2) \<Rightarrow> (Threw err, s2)
                | (Returned, s2) \<Rightarrow>
                    (case deleteStep t jcrPath childrenToDelete s2 of
                       (Threw err, s3) \<Rightarrow> (Threw err, s3)
                     | (Returned, s3) \<Rightarrow>
                         (if childProps \<noteq> [] \<and> fst (hd childProps) \<noteq> []
                          then processChildren t options jcrPath
                                 (needsReorder (deleteKeys (ignoredProps options) currentData0) childProps)
                                 0 childProps s3
                          else (Returned, s3))))))"
| "processChildren t options jcrPath reorder i [] s = (Returned, s)"
| "processChildren t options jcrPath reorder i ((k, v) # rest) s =
     (case processNode t options (joinPath jcrPath k) (spread v) (if reorder then Some i else None) s of
        (Threw err, s') \<Rightarrow> (Threw err, s')
      | (Returned, s') \<Rightarrow> processChildren t options jcrPath reorder (Suc i) rest s')"
  by pat_completeness auto
termination
proof (relation "measure (\<lambda>x. case x of
          Inl (t, options, jcrPath, properties0, order, s) \<Rightarrow> 2 * size (Node properties0) + 1
        | Inr (t, options, jcrPath, reorder, i, kids, s) \<Rightarrow> 2 * size (Node kids))", goal_cases)
  case 1
  show ?case by simp
next
  case (2 t options jcrPath properties0 order s x1 s1 currentData0 x childProps y ctd fd)
  then show ?case
    using buildMutation_size [of options currentData0 properties0 order childProps ctd fd]
    by simp
next
  case (3 t options jcrPath reorder i k v rest s)
  show ?case by (cases v) simp_all
next
  case (4 t options jcrPath reorder i k v rest s)
  show ?case by simp
qed

declare processNode.simps [simp del]

text \<open>
  \<open>saveJcrProperties\<close>. The messages written to the output channel are not part of
  the model.
\<close>

definition saveJcrProperties ::
  "transport \<Rightarrow> string \<Rightarrow> props \<Rightarrow> SaveOptions \<Rightarrow> request list \<Rightarrow> outcome \<times> session"
where
  "saveJcrProperties t jcrPath properties options reqs =
     (case processNode t options jcrPath properties None \<lparr> requests = reqs, changes = [] \<rparr> of
        (Threw err, s) \<Rightarrow> (Threw (OperationError (''Unable to update '' @ jcrPath) err), s)
      | (Returned, s) \<Rightarrow> (Returned, s))"



subsection \<open>Sample data\<close>

text \<open>
  A remote for the examples: it answers a fetch from a table of documents by URL,
  with the status 404 for a URL that is not in the table, and accepts every write,
  reporting the written path as changed.
\<close>

definition tableTransport :: "(string \<times> props) list \<Rightarrow> transport" where
  "tableTransport docs =
     \<lparr> fetchJSON = (\<lambda>reqs url. case map_of docs url of Some d \<Rightarrow> Inr d | None \<Rightarrow> Inl (FetchError 404)),
       post = (\<lambda>reqs jcrPath formData. Inr [jcrPath]) \<rparr>"

definition noOptions :: SaveOptions where
  "noOptions = \<lparr> ignoreProps = [], deleteProps = False, deleteChildren = False \<rparr>"

definition sampleNode :: props where
  "sampleNode =
     [(''x'', Scalar (SStr ''1'')),
      (''c'', Node [(''y'', Scalar (SNum 2)), (''g'', Node [])])]"

text \<open>
  The subtree without the scalar and array properties of any level: the child
  nodes are kept, and the same is done in each of them.
\<close>

function childNodesOnly :: "props \<Rightarrow> props" where
  "childNodesOnly data =
     map (\<lambda>kv. (fst kv, (case snd kv of Node c \<Rightarrow> Node (childNodesOnly c) | v \<Rightarrow> v)))
       (filter (\<lambda>kv. isChildNode (Some (snd kv))) data)"
  by pat_completeness auto
termination
proof (relation "measure (\<lambda>d. size (Node d))", goal_cases)
  case 1
  show ?case by simp
next
  case (2 data kv c)
  then have "kv \<in> set data" by simp
  then have "size (snd kv) < size (Node data)"
    by (induction data) (auto simp: less_Suc_eq_le)
  with 2 show ?case by simp
qed

declare childNodesOnly.simps [simp del]







subsection \<open>Trees that agree\<close>

text \<open>The write requests among the requests of a session.\<close>

fun isPost :: "request \<Rightarrow> bool" where
  "isPost (Post jcrPath formData) = True"
| "isPost (GetJSON url) = False"

definition writes :: "request list \<Rightarrow> request list" where
  "writes rs = filter isPost rs"















section \<open>Properties of the value codec\<close>

text \<open>
  C9. Leading-bracket escaping: a scalar whose text starts with \<open>[\<close> or \<open>{\<close> is to be
  serialized as a backslash, that first character and the rest of the text. The
  replacement text of \<open>serializeJcrValue\<close> refers to a group that its pattern does not
  have: the text \<open>[abc\<close> is serialized as backslash, dollar, one, \<open>abc\<close>, and the
  bracket is lost.
\<close>

theorem serializeJcrValue_bracket_lost:
  "serializeJcrValue (Scalar (SStr ''[abc'')) = bslash # ''$1abc'' \<and>
   serializeJcrValue (Scalar (SStr ''[abc'')) \<noteq> bslash # ''[abc''"
  by (simp add: formatJcrValue_def VALUE_TYPE_string_def VALUE_TYPE_date_def)


text \<open>
  C3. Array round trip: the empty array and the array of one empty string are to
  be told apart after serializing and deserializing. The serialized texts differ
  (\<open>[]\<close> and the marker \<open>[\0]\<close>), and the marker gives back the array of one empty
  string; but the loop over the matches of \<open>unserializeJcrValue\<close> keeps the empty
  match at index 1 of \<open>[]\<close>, so the empty array comes back as the array of one empty
  string too.
\<close>

theorem unserializeJcrValue_empty_array:
  "serializeJcrValue (Arr []) = ''[]'' \<and>
   u_value (unserializeJcrValue (serializeJcrValue (Arr []))) = Some (Arr [SStr []]) \<and>
   u_value (unserializeJcrValue (serializeJcrValue (Arr [SStr []]))) = Some (Arr [SStr []])"
  by code_simp


section \<open>Properties of the fetch modes\<close>

lemma cleanData_shallow:
  "cleanData data True False = filter (\<lambda>kv. isChildNode (Some (snd kv))) data"
  by (induction data) auto

lemma childNodesOnly_Nil: "childNodesOnly [] = []"
  by (simp add: childNodesOnly.simps)

lemma childNodesOnly_Cons:
  "childNodesOnly ((i, v) # rest) =
     (if isChildNode (Some v)
      then (i, (case v of Node c \<Rightarrow> Node (childNodesOnly c) | w \<Rightarrow> w)) # childNodesOnly rest
      else childNodesOnly rest)"
  by (subst childNodesOnly.simps, subst (3 4) childNodesOnly.simps) simp

lemma cleanData_deep:
  "keepChildren \<Longrightarrow> recursive \<Longrightarrow> cleanData data keepChildren recursive = childNodesOnly data"
  by (induction data keepChildren recursive rule: cleanData.induct)
     (auto simp: childNodesOnly_Nil childNodesOnly_Cons split: jsval.splits)

text \<open>
  C8, as stated: in the mode \<open>Children\<close> the result would hold the top-level scalar
  properties with the immediate children, and in the mode \<open>RecursiveChildren\<close> the
  scalar properties of the descendants would be retained. For the node \<open>sampleNode\<close>
  the result of \<open>Children\<close> has lost the top-level scalar \<open>x\<close>, and the result of
  \<open>RecursiveChildren\<close> has lost the scalar \<open>y\<close> of the child \<open>c\<close> as well.
\<close>

theorem fetchJcrNode_modes_counterexample:
  "fst (fetchJcrNode (tableTransport [(fetchUrl ''/a'' 1, sampleNode)]) ''/a'' Children (- 1) []) =
     Inr [(''c'', Node [(''y'', Scalar (SNum 2)), (''g'', Node [])])] \<and>
   fst (fetchJcrNode (tableTransport [(fetchUrl ''/a'' (- 1), sampleNode)]) ''/a''
          RecursiveChildren (- 1) []) =
     Inr [(''c'', Node [(''g'', Node [])])]"
  by code_simp

text \<open>
  C8, amended: in the mode \<open>Children\<close>, \<open>fetchJcrNode\<close> requests the node at depth 1
  and returns exactly those of its entries that are child nodes, each as it was
  fetched; the top-level scalar and array properties are dropped. In the mode
  \<open>RecursiveChildren\<close> it requests the node at the depth given and returns the child
  nodes of every level, without the scalar and array properties of any level.
\<close>

theorem fetchJcrNode_child_modes:
  "(fetchJSON t reqs (fetchUrl jcrPath 1) = Inr data \<longrightarrow>
      fetchJcrNode t jcrPath Children depth reqs =
        (Inr (filter (\<lambda>kv. isChildNode (Some (snd kv))) data),
         reqs @ [GetJSON (fetchUrl jcrPath 1)])) \<and>
   (fetchJSON t reqs (fetchUrl jcrPath depth) = Inr data \<longrightarrow>
      fetchJcrNode t jcrPath RecursiveChildren depth reqs =
        (Inr (childNodesOnly data), reqs @ [GetJSON (fetchUrl jcrPath depth)]))"
  by (simp add: fetchJcrNode_def Let_def FETCH_FILTER_def FETCH_FILTER_CHILDREN_def
        FETCH_RECURSIVE_def cleanData_shallow cleanData_deep)

theorem fetchJcrNode_child_modes_witness:
  "fetchJSON (tableTransport [(fetchUrl ''/a'' 1, sampleNode), (fetchUrl ''/a'' (- 1), sampleNode)])
     [] (fetchUrl ''/a'' 1) = Inr sampleNode \<and>
   fetchJSON (tableTransport [(fetchUrl ''/a'' 1, sampleNode), (fetchUrl ''/a'' (- 1), sampleNode)])
     [] (fetchUrl ''/a'' (- 1)) = Inr sampleNode \<and>
   fetchJcrNode (tableTransport [(fetchUrl ''/a'' 1, sampleNode), (fetchUrl ''/a'' (- 1), sampleNode)])
     ''/a'' Children (- 1) [] =
     (Inr (filter (\<lambda>kv. isChildNode (Some (snd kv))) sampleNode), [GetJSON (fetchUrl ''/a'' 1)]) \<and>
   fetchJcrNode (tableTransport [(fetchUrl ''/a'' 1, sampleNode), (fetchUrl ''/a'' (- 1), sampleNode)])
     ''/a'' RecursiveChildren (- 1) [] =
     (Inr (childNodesOnly sampleNode), [GetJSON (fetchUrl ''/a'' (- 1))])"
proof -
  let ?t = "tableTransport [(fetchUrl ''/a'' 1, sampleNode), (fetchUrl ''/a'' (- 1), sampleNode)]"
  have h1: "fetchJSON ?t [] (fetchUrl ''/a'' 1) = Inr sampleNode"
    by (simp add: tableTransport_def)
  have h2: "fetchJSON ?t [] (fetchUrl ''/a'' (- 1)) = Inr sampleNode"
    by (simp add: tableTransport_def fetchUrl_def)
  from h1 h2 fetchJcrNode_child_modes [of ?t "[]" "''/a''" sampleNode "- 1"]
  show ?thesis by simp
qed


section \<open>Properties of the reconciliation\<close>

subsection \<open>The steps of \<open>processNode\<close>\<close>


lemma fetchCurrent_requests:
  "requests (snd (fetchCurrent t jcrPath s)) = requests s @ [GetJSON (fetchUrl jcrPath 0)]"
  by (simp add: fetchCurrent_def fetchJcrNode_def Let_def FETCH_FILTER_CHILDREN_def
        FETCH_RECURSIVE_def split: sum.splits)

lemma postMutation_requests:
  "requests (snd (postMutation t jcrPath formData s)) =
     requests s @ (if formData = [] then [] else [Post jcrPath formData])"
  by (simp add: postMutation_def issue_def split: sum.splits)

lemma deleteJcrNode_requests:
  "requests (snd (deleteJcrNode t jcrPath s)) =
     requests s @ [Post jcrPath [('':operation'', Scalar (SStr ''delete''))]]"
  by (simp add: deleteJcrNode_def issue_def Let_def split: sum.splits)

lemma deleteChildNodes_requests:
  "requests (snd (deleteChildNodes t jcrPath vs s)) =
     requests s @ map (\<lambda>v. Post (joinPath jcrPath v) [('':operation'', Scalar (SStr ''delete''))]) vs"
proof (induction vs arbitrary: s)
  case Nil
  then show ?case by simp
next
  case (Cons v vs)
  obtain r s1 where d: "deleteJcrNode t (joinPath jcrPath v) s = (r, s1)"
    by (cases "deleteJcrNode t (joinPath jcrPath v) s")
  obtain r' s2 where c: "deleteChildNodes t jcrPath vs s1 = (r', s2)"
    by (cases "deleteChildNodes t jcrPath vs s1")
  from deleteJcrNode_requests [of t "joinPath jcrPath v" s] d
  have "requests s1 = requests s @ [Post (joinPath jcrPath v) [('':operation'', Scalar (SStr ''delete''))]]"
    by simp
  moreover from Cons.IH [of s1] c
  have "requests s2 = requests s1 @ map (\<lambda>v. Post (joinPath jcrPath v) [('':operation'', Scalar (SStr ''delete''))]) vs"
    by simp
  ultimately show ?case using d c by simp
qed

lemma processNode_cases [case_names FetchError BuildError PostError DeleteError Continue]:
  obtains
    (FetchError) err s1 where
      "fetchCurrent t jcrPath s = (Inl err, s1)"
      "processNode t options jcrPath properties0 order s = (Threw err, s1)"
  | (BuildError) currentData0 s1 err where
      "fetchCurrent t jcrPath s = (Inr currentData0, s1)"
      "buildMutation options currentData0 properties0 order = Inl err"
      "processNode t options jcrPath properties0 order s = (Threw err, s1)"
  | (PostError) currentData0 s1 childProps childrenToDelete formData err s2 where
      "fetchCurrent t jcrPath s = (Inr currentData0, s1)"
      "buildMutation options currentData0 properties0 order = Inr (childProps, childrenToDelete, formData)"
      "postMutation t jcrPath formData s1 = (Threw err, s2)"
      "processNode t options jcrPath properties0 order s = (Threw err, s2)"
  | (DeleteError) currentData0 s1 childProps childrenToDelete formData s2 err s3 where
      "fetchCurrent t jcrPath s = (Inr currentData0, s1)"
      "buildMutation options currentData0 properties0 order = Inr (childProps, childrenToDelete, formData)"
      "postMutation t jcrPath formData s1 = (Returned, s2)"
      "deleteStep t jcrPath childrenToDelete s2 = (Threw err, s3)"
      "processNode t options jcrPath properties0 order s = (Threw err, s3)"
  | (Continue) currentData0 s1 childProps childrenToDelete formData s2 s3 where
      "fetchCurrent t jcrPath s = (Inr currentData0, s1)"
      "buildMutation options currentData0 properties0 order = Inr (childProps, childrenToDelete, formData)"
      "postMutation t jcrPath formData s1 = (Returned, s2)"
      "deleteStep t jcrPath childrenToDelete s2 = (Returned, s3)"
      "processNode t options jcrPath properties0 order s =
         (if childProps \<noteq> [] \<and> fst (hd childProps) \<noteq> []
          then processChildren t options jcrPath
                 (needsReorder (deleteKeys (ignoredProps options) currentData0) childProps)
                 0 childProps s3
          else (Returned, s3))"
proof -
  obtain f s1 where fc: "fetchCurrent t jcrPath s = (f, s1)"
    by (cases "fetchCurrent t jcrPath s")
  show thesis
  proof (cases f)
    case (Inl err)
    with fc show thesis by (intro FetchError [of err s1]) (simp_all add: processNode.simps)
  next
    case (Inr currentData0)
    note f = this
    show thesis
    proof (cases "buildMutation options currentData0 properties0 order")
      case (Inl err)
      with fc f show thesis
        by (intro BuildError [of currentData0 s1 err]) (simp_all add: processNode.simps)
    next
      case (Inr b)
      obtain childProps childrenToDelete formData where "b = (childProps, childrenToDelete, formData)"
        by (cases b)
      with Inr have bm: "buildMutation options currentData0 properties0 order =
          Inr (childProps, childrenToDelete, formData)" by simp
      obtain r2 s2 where pm: "postMutation t jcrPath formData s1 = (r2, s2)"
        by (cases "postMutation t jcrPath formData s1")
      show thesis
      proof (cases r2)
        case (Threw err)
        with fc f bm pm show thesis
          by (intro PostError [of currentData0 s1 childProps childrenToDelete formData err s2])
             (simp_all add: processNode.simps)
      next
        case Returned
        note ret2 = this
        obtain r3 s3 where dl: "deleteStep t jcrPath childrenToDelete s2 = (r3, s3)"
          by (cases "deleteStep t jcrPath childrenToDelete s2")
        show thesis
        proof (cases r3)
          case (Threw err)
          with fc f bm pm ret2 dl show thesis
            by (intro DeleteError [of currentData0 s1 childProps childrenToDelete formData s2 err s3])
               (simp_all add: processNode.simps)
        next
          case Returned
          with fc f bm pm ret2 dl show thesis
            by (intro Continue [of currentData0 s1 childProps childrenToDelete formData s2 s3])
               (simp_all add: processNode.simps)
        qed
      qed
    qed
  qed
qed

lemma processNode_induct [case_names Node Nil Cons]:
  assumes node: "\<And>t options jcrPath properties0 order s.
      (\<And>currentData0 s1 childProps childrenToDelete formData s2 s3.
          fetchCurrent t jcrPath s = (Inr currentData0, s1) \<Longrightarrow>
          buildMutation options currentData0 properties0 order = Inr (childProps, childrenToDelete, formData) \<Longrightarrow>
          postMutation t jcrPath formData s1 = (Returned, s2) \<Longrightarrow>
          deleteStep t jcrPath childrenToDelete s2 = (Returned, s3) \<Longrightarrow>
          childProps \<noteq> [] \<and> fst (hd childProps) \<noteq> [] \<Longrightarrow>
          Q t options jcrPath
            (needsReorder (deleteKeys (ignoredProps options) currentData0) childProps) 0 childProps s3)
      \<Longrightarrow> P t options jcrPath properties0 order s"
    and nil: "\<And>t options jcrPath reorder i s. Q t options jcrPath reorder i [] s"
    and cons: "\<And>t options jcrPath reorder i k v rest s.
      P t options (joinPath jcrPath k) (spread v) (if reorder then Some i else None) s \<Longrightarrow>
      (\<And>s'. processNode t options (joinPath jcrPath k) (spread v) (if reorder then Some i else None) s
               = (Returned, s') \<Longrightarrow>
             Q t options jcrPath reorder (Suc i) rest s') \<Longrightarrow>
      Q t options jcrPath reorder i ((k, v) # rest) s"
  shows "P t options jcrPath properties0 order s"
    and "Q t options jcrPath reorder i kids s'"
proof (induction t options jcrPath properties0 order s and t options jcrPath reorder i kids s'
       rule: processNode_processChildren.induct)
  case (1 t options jcrPath properties0 order s)
  show ?case
  proof (rule node)
    fix currentData0 s1 childProps childrenToDelete formData s2 s3
    assume fc: "fetchCurrent t jcrPath s = (Inr currentData0, s1)"
      and bm: "buildMutation options currentData0 properties0 order = Inr (childProps, childrenToDelete, formData)"
      and pm: "postMutation t jcrPath formData s1 = (Returned, s2)"
      and dl: "deleteStep t jcrPath childrenToDelete s2 = (Returned, s3)"
      and ch: "childProps \<noteq> [] \<and> fst (hd childProps) \<noteq> []"
    from "1.IH" [OF fc [symmetric] refl bm refl refl pm [symmetric] refl dl [symmetric] refl ch]
    show "Q t options jcrPath
            (needsReorder (deleteKeys (ignoredProps options) currentData0) childProps) 0 childProps s3" .
  qed
next
  case (2 t options jcrPath reorder i s)
  show ?case by (rule nil)
next
  case (3 t options jcrPath reorder i k v rest s)
  show ?case
  proof (rule cons)
    show "P t options (joinPath jcrPath k) (spread v) (if reorder then Some i else None) s"
      by (rule "3.IH"(1))
  next
    fix s'
    assume "processNode t options (joinPath jcrPath k) (spread v) (if reorder then Some i else None) s
               = (Returned, s')"
    from "3.IH"(2) [OF this [symmetric] refl]
    show "Q t options jcrPath reorder (Suc i) rest s'" .
  qed
qed

lemma processChildren_Cons:
  "processChildren t options jcrPath reorder i ((k, v) # rest) s =
     (case processNode t options (joinPath jcrPath k) (spread v) (if reorder then Some i else None) s of
        (Threw err, s') \<Rightarrow> (Threw err, s')
      | (Returned, s') \<Rightarrow> processChildren t options jcrPath reorder (Suc i) rest s')"
  by simp

lemma deleteStep_requests:
  "\<exists>more. requests (snd (deleteStep t jcrPath ctd s)) = requests s @ more"
  by (simp add: deleteStep_def deleteChildNodes_requests)

lemma processNode_extends:
  "\<exists>more. requests (snd (processNode t options jcrPath properties0 order s)) = requests s @ more"
  "\<exists>more. requests (snd (processChildren t options jcrPath reorder i kids s')) = requests s' @ more"
proof (induction t options jcrPath properties0 order s and t options jcrPath reorder i kids s'
       rule: processNode_induct)
  case (Node t options jcrPath properties0 order s)
  show ?case
  proof (cases rule: processNode_cases [where t = t and jcrPath = jcrPath and s = s
        and options = options and ?properties0.0 = properties0 and order = order])
    case (FetchError err s1)
    then show ?thesis using fetchCurrent_requests [of t jcrPath s] by simp
  next
    case (BuildError currentData0 s1 err)
    then show ?thesis using fetchCurrent_requests [of t jcrPath s] by simp
  next
    case (PostError currentData0 s1 childProps childrenToDelete formData err s2)
    then show ?thesis
      using fetchCurrent_requests [of t jcrPath s] postMutation_requests [of t jcrPath formData s1]
      by simp
  next
    case (DeleteError currentData0 s1 childProps childrenToDelete formData s2 err s3)
    then show ?thesis
      using fetchCurrent_requests [of t jcrPath s] postMutation_requests [of t jcrPath formData s1]
        deleteStep_requests [of t jcrPath childrenToDelete s2]
      by auto
  next
    case (Continue currentData0 s1 childProps childrenToDelete formData s2 s3)
    have r3: "\<exists>m. requests s3 = requests s @ m"
      using Continue fetchCurrent_requests [of t jcrPath s]
        postMutation_requests [of t jcrPath formData s1]
        deleteStep_requests [of t jcrPath childrenToDelete s2]
      by auto
    show ?thesis
    proof (cases "childProps \<noteq> [] \<and> fst (hd childProps) \<noteq> []")
      case True
      from Node [OF Continue(1-4) True] r3 Continue(5) True show ?thesis by auto
    next
      case False
      with r3 Continue(5) show ?thesis by auto
    qed
  qed
next
  case (Nil t options jcrPath reorder i s)
  show ?case by simp
next
  case (Cons t options jcrPath reorder i k v rest s)
  let ?pn = "processNode t options (joinPath jcrPath k) (spread v) (if reorder then Some i else None) s"
  obtain r s' where pn: "?pn = (r, s')" by (cases ?pn)
  from Cons(1) pn obtain m where m: "requests s' = requests s @ m" by auto
  show ?case
  proof (cases r)
    case (Threw err)
    with pn m show ?thesis by simp
  next
    case Returned
    from Cons(2) [of s'] pn Returned obtain m' where
      "requests (snd (processChildren t options jcrPath reorder (Suc i) rest s')) = requests s' @ m'"
      by auto
    with pn m Returned show ?thesis by simp
  qed
qed



subsection \<open>The fields of one property in the form\<close>

lemma map_of_deleteKeys: "k \<notin> set ks \<Longrightarrow> map_of (deleteKeys ks d) k = map_of d k"
  by (induction d) (auto simp: deleteKeys_def)

lemma map_of_split:
  "map_of l k = Some v \<Longrightarrow> \<exists>xs ys. l = xs @ (k, v) # ys \<and> map_of xs k = None"
proof (induction l)
  case Nil
  then show ?case by simp
next
  case (Cons a l)
  show ?case
  proof (cases "fst a = k")
    case True
    with Cons.prems have "a = (k, v)" by (cases a) auto
    then have "a # l = [] @ (k, v) # l \<and> map_of [] k = None" by simp
    then show ?thesis by blast
  next
    case False
    with Cons.prems have "map_of l k = Some v" by (cases a) auto
    from Cons.IH [OF this] obtain xs ys where "l = xs @ (k, v) # ys" "map_of xs k = None" by blast
    with False have "a # l = (a # xs) @ (k, v) # ys \<and> map_of (a # xs) k = None"
      by (cases a) auto
    then show ?thesis by blast
  qed
qed

lemma scanCurrent_properties:
  "\<exists>extra. fst (scanCurrent options cur properties ctd fd) = properties @ extra"
  by (induction options cur properties ctd fd rule: scanCurrent.induct) auto

lemma appendTypeHint_append:
  "appendTypeHint P i ty (fd @ fd') = fd @ appendTypeHint P i ty fd'"
  by (simp add: appendTypeHint_def Let_def)

lemma diffEntry_acc:
  "diffEntry cur P i v acc =
     (case diffEntry cur P i v ([], []) of
        Inl err \<Rightarrow> Inl err
      | Inr a \<Rightarrow> Inr (fst acc @ fst a, snd acc @ snd a))"
proof -
  have h: "\<And>ty fd. appendTypeHint P i ty (snd acc @ fd) = snd acc @ appendTypeHint P i ty fd"
    by (rule appendTypeHint_append)
  have h0: "\<And>ty. appendTypeHint P i ty (snd acc) = snd acc @ appendTypeHint P i ty []"
    using h [of _ "[]"] by simp
  show ?thesis
    by (cases v) (auto simp: diffEntry_def Let_def h h0 split: option.splits jsval.splits)
qed

lemma diffProperties_acc:
  "diffProperties cur P xs acc =
     (case diffProperties cur P xs ([], []) of
        Inl err \<Rightarrow> Inl err
      | Inr a \<Rightarrow> Inr (fst acc @ fst a, snd acc @ snd a))"
proof (induction xs arbitrary: acc)
  case Nil
  then show ?case by simp
next
  case (Cons x xs)
  obtain i v where x: "x = (i, v)" by (cases x)
  show ?case
  proof (cases "diffEntry cur P i v ([], [])")
    case (Inl err)
    then show ?thesis using x diffEntry_acc [of cur P i v acc] by simp
  next
    case (Inr a)
    then have 1: "diffEntry cur P i v acc = Inr (fst acc @ fst a, snd acc @ snd a)"
      using diffEntry_acc [of cur P i v acc] by simp
    show ?thesis
      using x Inr 1 Cons.IH [of "(fst acc @ fst a, snd acc @ snd a)"] Cons.IH [of a]
      by (auto split: sum.splits)
  qed
qed

lemma diffProperties_append:
  "diffProperties cur P (xs @ ys) acc =
     (case diffProperties cur P xs acc of Inl err \<Rightarrow> Inl err | Inr acc' \<Rightarrow> diffProperties cur P ys acc')"
  by (induction xs arbitrary: acc) (auto split: sum.splits)

text \<open>The fields of the property \<open>i\<close> within the form built by the second loop.\<close>

lemma diffProperties_at:
  assumes "diffProperties cur P (xs @ (i, v) # ys) acc = Inr acc'"
  shows "\<exists>a before after. diffEntry cur P i v ([], []) = Inr a \<and>
           snd acc' = snd acc @ before @ snd a @ after"
proof -
  from assms obtain a1 where a1: "diffProperties cur P xs acc = Inr a1"
    and r1: "diffProperties cur P ((i, v) # ys) a1 = Inr acc'"
    by (auto simp: diffProperties_append split: sum.splits)
  from r1 obtain a2 where a2: "diffEntry cur P i v a1 = Inr a2"
    and r2: "diffProperties cur P ys a2 = Inr acc'"
    by (auto split: sum.splits)
  from a1 obtain b1 where b1: "snd a1 = snd acc @ snd b1"
    using diffProperties_acc [of cur P xs acc] by (auto split: sum.splits)
  from a2 obtain a where a: "diffEntry cur P i v ([], []) = Inr a" "snd a2 = snd a1 @ snd a"
    using diffEntry_acc [of cur P i v a1] by (auto split: sum.splits)
  from r2 obtain b3 where b3: "snd acc' = snd a2 @ snd b3"
    using diffProperties_acc [of cur P ys a2] by (auto split: sum.splits)
  from a b1 b3 have "diffEntry cur P i v ([], []) = Inr a \<and>
      snd acc' = snd acc @ snd b1 @ snd a @ snd b3" by simp
  then show ?thesis by blast
qed

lemma buildMutation_at:
  assumes bm: "buildMutation options currentData0 properties0 order = Inr (childProps, childrenToDelete, formData)"
    and p: "map_of properties0 i = Some v"
    and ni: "i \<notin> set (ignoredProps options)"
  shows "\<exists>P a before after.
           diffEntry (deleteKeys (ignoredProps options) currentData0) P i v ([], []) = Inr a \<and>
           (\<exists>extra. P = deleteKeys (ignoredProps options) properties0 @ extra) \<and>
           formData = before @ snd a @ after"
proof -
  let ?cur = "deleteKeys (ignoredProps options) currentData0"
  let ?p1 = "deleteKeys (ignoredProps options) properties0"
  obtain P ctd0 fd0 where sc: "scanCurrent options ?cur ?p1 [] [] = (P, ctd0, fd0)"
    by (cases "scanCurrent options ?cur ?p1 [] []") auto
  from bm sc obtain fd1 where
    dp: "diffProperties ?cur P P ([], fd0) = Inr (childProps, fd1)" and
    fd: "formData = (case order of None \<Rightarrow> fd1
                     | Some n \<Rightarrow> fd1 @ [('':order'', Scalar (SStr (natToString n)))])"
    by (auto simp: buildMutation_def Let_def split: sum.splits prod.splits)
  from scanCurrent_properties [of options ?cur ?p1 "[]" "[]"] sc
  obtain extra where ex: "P = ?p1 @ extra" by auto
  from p ni have "map_of ?p1 i = Some v" by (simp add: map_of_deleteKeys)
  from map_of_split [OF this] obtain xs ys where xy: "?p1 = xs @ (i, v) # ys" by blast
  with ex have "P = xs @ (i, v) # (ys @ extra)" by simp
  with dp have "diffProperties ?cur P (xs @ (i, v) # (ys @ extra)) ([], fd0) = Inr (childProps, fd1)"
    by simp
  from diffProperties_at [OF this] obtain a before after where
    a: "diffEntry ?cur P i v ([], []) = Inr a" and f1: "fd1 = fd0 @ before @ snd a @ after"
    by auto
  from fd f1 obtain after' where "formData = (fd0 @ before) @ snd a @ after'"
    by (cases order) auto
  with a ex show ?thesis by blast
qed



lemma processNode_post:
  assumes fc: "fetchCurrent t jcrPath s = (Inr currentData0, s1)"
    and bm: "buildMutation options currentData0 properties0 order = Inr (childProps, childrenToDelete, formData)"
    and ne: "formData \<noteq> []"
  shows "\<exists>more. requests (snd (processNode t options jcrPath properties0 order s)) =
           requests s @ GetJSON (fetchUrl jcrPath 0) # Post jcrPath formData # more"
proof -
  have r1: "requests s1 = requests s @ [GetJSON (fetchUrl jcrPath 0)]"
    using fetchCurrent_requests [of t jcrPath s] fc by simp
  have r2: "\<And>r s2. postMutation t jcrPath formData s1 = (r, s2) \<Longrightarrow>
      requests s2 = requests s @ [GetJSON (fetchUrl jcrPath 0), Post jcrPath formData]"
    using postMutation_requests [of t jcrPath formData s1] r1 ne by simp
  show ?thesis
  proof (cases rule: processNode_cases [where t = t and jcrPath = jcrPath and s = s
        and options = options and ?properties0.0 = properties0 and order = order])
    case (FetchError err s1)
    with fc show ?thesis by simp
  next
    case (BuildError currentData0 s1 err)
    with fc bm show ?thesis by simp
  next
    case (PostError c' s1' cp' ctd' fd' err s2)
    with fc bm r2 [of "Threw err" s2] show ?thesis by simp
  next
    case (DeleteError c' s1' cp' ctd' fd' s2 err s3)
    with fc bm r2 [of Returned s2] deleteStep_requests [of t jcrPath ctd' s2]
    show ?thesis by auto
  next
    case (Continue c' s1' cp' ctd' fd' s2 s3)
    with fc bm r2 [of Returned s2] deleteStep_requests [of t jcrPath ctd' s2]
    obtain m where m: "requests s3 = requests s @ GetJSON (fetchUrl jcrPath 0) # Post jcrPath formData # m"
      by auto
    show ?thesis
    proof (cases "cp' \<noteq> [] \<and> fst (hd cp') \<noteq> []")
      case True
      with Continue(5) m
        processNode_extends(2) [of t options jcrPath
          "needsReorder (deleteKeys (ignoredProps options) c') cp'" 0 cp' s3]
      show ?thesis by auto
    next
      case False
      with Continue(5) m show ?thesis by auto
    qed
  qed
qed

subsection \<open>The claims about the mutation\<close>

text \<open>
  C5. Empty-array removal patch: when the desired value of a property is the empty
  array and its current value is a non-empty array, the form that is posted for
  the node holds the field \<open>name@Patch\<close> with the value \<open>true\<close>, followed by one field
  \<open>name\<close> for each current element, the element's text after a minus sign. A full
  replacement would list the desired elements, of which there are none. The
  property is one that the second loop looks at: its name is not ignored and does
  not start with a colon.
\<close>

theorem emptyArray_removal_patch:
  assumes fc: "fetchCurrent t jcrPath s = (Inr currentData0, s1)"
    and bm: "buildMutation options currentData0 properties0 order = Inr (childProps, childrenToDelete, formData)"
    and p: "map_of properties0 name = Some (Arr [])"
    and c: "map_of currentData0 name = Some (Arr ys)"
    and ys: "ys \<noteq> []"
    and ni: "name \<notin> set (ignoredProps options)"
    and nc: "\<not> startsWithColon name"
  shows "\<exists>before after more.
      formData = before @ (name @ ''@Patch'', Scalar (SStr ''true''))
                  # map (\<lambda>v. (name, Scalar (SStr (''-'' @ formatJcrValue (Some (Scalar v)))))) ys @ after \<and>
      requests (snd (processNode t options jcrPath properties0 order s)) =
        requests s @ GetJSON (fetchUrl jcrPath 0) # Post jcrPath formData # more"
proof -
  let ?cur = "deleteKeys (ignoredProps options) currentData0"
  let ?block = "(name @ ''@Patch'', Scalar (SStr ''true''))
                  # map (\<lambda>v. (name, Scalar (SStr (''-'' @ formatJcrValue (Some (Scalar v)))))) ys"
  from buildMutation_at [OF bm p ni] obtain P a before after where
    a: "diffEntry ?cur P name (Arr []) ([], []) = Inr a" and f: "formData = before @ snd a @ after"
    by blast
  from c ni have cur: "map_of ?cur name = Some (Arr ys)" by (simp add: map_of_deleteKeys)
  from ys have len: "int (length ys) \<noteq> 0" by simp
  have "diffEntry ?cur P name (Arr []) ([], []) = Inr ([], appendTypeHint P name [] ?block)"
    using cur ys nc len by (simp add: diffEntry_def Let_def)
  with a have "a = ([], appendTypeHint P name [] ?block)" by simp
  then have "snd a = appendTypeHint P name [] (?block @ [])" by simp
  then have "snd a = ?block @ appendTypeHint P name [] []"
    by (simp only: appendTypeHint_append)
  with f have form: "formData = before @ ?block @ (appendTypeHint P name [] [] @ after)" by simp
  then have "formData \<noteq> []" by simp
  from processNode_post [OF fc bm this] obtain more where
    "requests (snd (processNode t options jcrPath properties0 order s)) =
       requests s @ GetJSON (fetchUrl jcrPath 0) # Post jcrPath formData # more" by blast
  moreover from form have "formData = before @ (name @ ''@Patch'', Scalar (SStr ''true''))
      # map (\<lambda>v. (name, Scalar (SStr (''-'' @ formatJcrValue (Some (Scalar v)))))) ys
        @ (appendTypeHint P name [] [] @ after)" by simp
  ultimately show ?thesis by blast
qed

theorem emptyArray_removal_patch_witness:
  "fetchCurrent (tableTransport [(fetchUrl ''/a'' 0, [(''tags'', Arr [SStr ''a'', SStr ''b''])])]) ''/a''
      \<lparr> requests = [], changes = [] \<rparr> =
     (Inr [(''tags'', Arr [SStr ''a'', SStr ''b''])],
      \<lparr> requests = [GetJSON (fetchUrl ''/a'' 0)], changes = [] \<rparr>) \<and>
   buildMutation noOptions [(''tags'', Arr [SStr ''a'', SStr ''b''])] [(''tags'', Arr [])] None =
     Inr ([], [], [(''tags@Patch'', Scalar (SStr ''true'')),
                   (''tags'', Scalar (SStr ''-a'')), (''tags'', Scalar (SStr ''-b''))]) \<and>
   (\<exists>more.
      requests (snd (processNode (tableTransport [(fetchUrl ''/a'' 0, [(''tags'', Arr [SStr ''a'', SStr ''b''])])])
                  noOptions ''/a'' [(''tags'', Arr [])] None \<lparr> requests = [], changes = [] \<rparr>)) =
      GetJSON (fetchUrl ''/a'' 0)
        # Post ''/a'' [(''tags@Patch'', Scalar (SStr ''true'')),
                      (''tags'', Scalar (SStr ''-a'')), (''tags'', Scalar (SStr ''-b''))] # more)"
proof -
  let ?t = "tableTransport [(fetchUrl ''/a'' 0, [(''tags'', Arr [SStr ''a'', SStr ''b''])])]"
  let ?s = "\<lparr> requests = [], changes = [] \<rparr>"
  have fc: "fetchCurrent ?t ''/a'' ?s =
     (Inr [(''tags'', Arr [SStr ''a'', SStr ''b''])],
      \<lparr> requests = [GetJSON (fetchUrl ''/a'' 0)], changes = [] \<rparr>)"
    by code_simp
  have bm: "buildMutation noOptions [(''tags'', Arr [SStr ''a'', SStr ''b''])] [(''tags'', Arr [])] None =
     Inr ([], [], [(''tags@Patch'', Scalar (SStr ''true'')),
                   (''tags'', Scalar (SStr ''-a'')), (''tags'', Scalar (SStr ''-b''))])"
    by code_simp
  have ni: "''tags'' \<notin> set (ignoredProps noOptions)" by code_simp
  have nc: "\<not> startsWithColon ''tags''" by code_simp
  from emptyArray_removal_patch [OF fc bm _ _ _ ni nc, of "[SStr ''a'', SStr ''b'']"]
  obtain more where "requests (snd (processNode ?t noOptions ''/a'' [(''tags'', Arr [])] None ?s)) =
      requests ?s @ GetJSON (fetchUrl ''/a'' 0)
        # Post ''/a'' [(''tags@Patch'', Scalar (SStr ''true'')),
                      (''tags'', Scalar (SStr ''-a'')), (''tags'', Scalar (SStr ''-b''))] # more"
    by auto
  with fc bm show ?thesis by auto
qed


lemma deleteKeys_filter:
  "deleteKeys ks (filter Q d) = filter Q (deleteKeys ks d)"
  by (induction d) (auto simp: deleteKeys_def)

lemma scanCurrent_without:
  assumes "\<not> deleteProps options" and "\<not> startsWithColon i"
    and "\<forall>v. (i, v) \<in> set cur \<longrightarrow> \<not> isChildNode (Some v)"
  shows "scanCurrent options (filter (\<lambda>kv. fst kv \<noteq> i) cur) properties ctd fd =
         scanCurrent options cur properties ctd fd"
  using assms
  by (induction options cur properties ctd fd rule: scanCurrent.induct) auto

lemma scanCurrent_keys:
  "k \<in> fst ` set (fst (scanCurrent options cur properties ctd fd)) \<Longrightarrow>
   k \<in> fst ` set properties \<or> startsWithColon k"
  by (induction options cur properties ctd fd rule: scanCurrent.induct)
     (auto split: if_splits)

lemma diffEntry_current:
  "map_of cur k = map_of cur' k \<Longrightarrow> diffEntry cur P k v acc = diffEntry cur' P k v acc"
  by (simp add: diffEntry_def)

lemma diffProperties_current:
  "\<forall>k \<in> fst ` set xs. map_of cur k = map_of cur' k \<Longrightarrow>
   diffProperties cur P xs acc = diffProperties cur' P xs acc"
proof (induction xs arbitrary: acc)
  case Nil
  then show ?case by simp
next
  case (Cons x xs)
  obtain k v where x: "x = (k, v)" by (cases x)
  with Cons.prems have "map_of cur k = map_of cur' k" by simp
  from diffEntry_current [OF this] have "diffEntry cur P k v acc = diffEntry cur' P k v acc" .
  moreover from Cons.prems have "\<forall>k \<in> fst ` set xs. map_of cur k = map_of cur' k" by simp
  from Cons.IH [OF this] have "\<And>a. diffProperties cur P xs a = diffProperties cur' P xs a" .
  ultimately show ?case using x by (simp split: sum.splits)
qed

lemma map_of_filter_other:
  "k \<noteq> i \<Longrightarrow> map_of (filter (\<lambda>kv. fst kv \<noteq> i) d) k = map_of d k"
  by (induction d) auto

lemma buildMutation_without:
  assumes nd: "\<not> deleteProps options"
    and ab: "map_of properties0 i = None"
    and nc: "\<not> startsWithColon i"
    and pl: "\<forall>v. (i, v) \<in> set currentData0 \<longrightarrow> \<not> isChildNode (Some v)"
  shows "buildMutation options (filter (\<lambda>kv. fst kv \<noteq> i) currentData0) properties0 order =
         buildMutation options currentData0 properties0 order"
proof -
  let ?ign = "ignoredProps options"
  let ?cur = "deleteKeys ?ign currentData0"
  let ?cur' = "filter (\<lambda>kv. fst kv \<noteq> i) ?cur"
  let ?p1 = "deleteKeys ?ign properties0"
  from pl have pl': "\<forall>v. (i, v) \<in> set ?cur \<longrightarrow> \<not> isChildNode (Some v)"
    by (auto simp: deleteKeys_def)
  have sc: "scanCurrent options ?cur' ?p1 [] [] = scanCurrent options ?cur ?p1 [] []"
    by (rule scanCurrent_without [OF nd nc pl'])
  obtain P ctd0 fd0 where s: "scanCurrent options ?cur ?p1 [] [] = (P, ctd0, fd0)"
    by (cases "scanCurrent options ?cur ?p1 [] []") auto
  from ab have "i \<notin> fst ` set properties0" by (simp add: map_of_eq_None_iff)
  then have "i \<notin> fst ` set ?p1" by (auto simp: deleteKeys_def)
  with scanCurrent_keys [of i options ?cur ?p1 "[]" "[]"] s nc have "i \<notin> fst ` set P"
    by auto
  then have "\<forall>k \<in> fst ` set P. k \<noteq> i" by auto
  then have "\<forall>k \<in> fst ` set P. map_of ?cur' k = map_of ?cur k"
    using map_of_filter_other [of _ i ?cur] by blast
  from diffProperties_current [OF this]
  have "diffProperties ?cur' P P ([], fd0) = diffProperties ?cur P P ([], fd0)" .
  with sc s show ?thesis
    by (simp add: buildMutation_def Let_def deleteKeys_filter)
qed

lemma map_of_append_colon:
  "startsWithColon i \<Longrightarrow> ([i \<mapsto> v] ++ map_of P) PROP_jcrPrimaryType = map_of P PROP_jcrPrimaryType"
  by (auto simp: map_add_def startsWithColon_def PROP_jcrPrimaryType_def split: option.splits)

lemma scanCurrent_no_primaryType:
  "\<not> truthy (map_of properties PROP_jcrPrimaryType) \<Longrightarrow>
   scanCurrent options cur properties ctd fd =
   scanCurrent (options \<lparr> deleteProps := False \<rparr>) cur properties ctd fd"
  by (induction options cur properties ctd fd rule: scanCurrent.induct)
     (auto simp: map_of_append_colon)

lemma buildMutation_no_primaryType:
  assumes "\<not> truthy (map_of (deleteKeys (ignoredProps options) properties0) PROP_jcrPrimaryType)"
  shows "buildMutation options currentData0 properties0 order =
         buildMutation (options \<lparr> deleteProps := False \<rparr>) currentData0 properties0 order"
  using scanCurrent_no_primaryType [OF assms]
  by (simp add: buildMutation_def Let_def ignoredProps_def)

lemma scanCurrent_no_fields:
  "\<not> deleteProps options \<Longrightarrow> snd (snd (scanCurrent options cur properties ctd fd)) = fd"
  by (induction options cur properties ctd fd rule: scanCurrent.induct) auto

text \<open>
  C6. Deletion gating. With \<open>deleteProps\<close> false, a plain property \<open>i\<close> of the current
  data that the desired tree does not have contributes nothing: the mutation is
  the one that is built from the current data without \<open>i\<close>. And whatever
  \<open>deleteProps\<close> is, the field \<open>@Delete\<close> is appended only when the desired tree has
  a primary type (a value of \<open>jcr:primaryType\<close> that is truthy, and not ignored):
  without it the mutation is the one that is built with \<open>deleteProps\<close> false.
\<close>

theorem deletion_gating:
  "(\<not> deleteProps options \<longrightarrow> map_of properties0 i = None \<longrightarrow> \<not> startsWithColon i \<longrightarrow>
      distinct (map fst currentData0) \<longrightarrow> map_of currentData0 i = Some v \<longrightarrow>
      \<not> isChildNode (Some v) \<longrightarrow>
      buildMutation options currentData0 properties0 order =
      buildMutation options (filter (\<lambda>kv. fst kv \<noteq> i) currentData0) properties0 order) \<and>
   (\<not> truthy (map_of (deleteKeys (ignoredProps options) properties0) PROP_jcrPrimaryType) \<longrightarrow>
      buildMutation options currentData0 properties0 order =
      buildMutation (options \<lparr> deleteProps := False \<rparr>) currentData0 properties0 order)"
proof -
  have "\<forall>w. (i, w) \<in> set currentData0 \<longrightarrow> \<not> isChildNode (Some w)"
    if d: "distinct (map fst currentData0)" and m: "map_of currentData0 i = Some v"
      and n: "\<not> isChildNode (Some v)"
  proof (intro allI impI)
    fix w
    assume "(i, w) \<in> set currentData0"
    with d have "map_of currentData0 i = Some w" by (rule map_of_is_SomeI)
    with m n show "\<not> isChildNode (Some w)" by simp
  qed
  then show ?thesis
    using buildMutation_without [of options properties0 i currentData0 order]
          buildMutation_no_primaryType [of options properties0 currentData0 order]
    by auto
qed

theorem deletion_gating_witness:
  "\<not> deleteProps noOptions \<and>
   map_of [(''title'', Scalar (SStr ''New''))] ''stale'' = None \<and>
   \<not> startsWithColon ''stale'' \<and>
   distinct (map fst [(''title'', Scalar (SStr ''Old'')), (''stale'', Scalar (SNum 1))]) \<and>
   map_of [(''title'', Scalar (SStr ''Old'')), (''stale'', Scalar (SNum 1))] ''stale'' =
     Some (Scalar (SNum 1)) \<and>
   \<not> isChildNode (Some (Scalar (SNum 1))) \<and>
   buildMutation noOptions [(''title'', Scalar (SStr ''Old'')), (''stale'', Scalar (SNum 1))]
     [(''title'', Scalar (SStr ''New''))] None =
   buildMutation noOptions
     (filter (\<lambda>kv. fst kv \<noteq> ''stale'') [(''title'', Scalar (SStr ''Old'')), (''stale'', Scalar (SNum 1))])
     [(''title'', Scalar (SStr ''New''))] None \<and>
   \<not> truthy (map_of (deleteKeys (ignoredProps (noOptions \<lparr> deleteProps := True \<rparr>))
                       [(''title'', Scalar (SStr ''New''))]) PROP_jcrPrimaryType) \<and>
   buildMutation (noOptions \<lparr> deleteProps := True \<rparr>)
     [(''title'', Scalar (SStr ''Old'')), (''stale'', Scalar (SNum 1))]
     [(''title'', Scalar (SStr ''New''))] None =
   buildMutation (noOptions \<lparr> deleteProps := True, deleteProps := False \<rparr>)
     [(''title'', Scalar (SStr ''Old'')), (''stale'', Scalar (SNum 1))]
     [(''title'', Scalar (SStr ''New''))] None"
proof -
  let ?cur = "[(''title'', Scalar (SStr ''Old'')), (''stale'', Scalar (SNum 1))]"
  let ?props = "[(''title'', Scalar (SStr ''New''))]"
  have h1: "\<not> deleteProps noOptions" by (simp add: noOptions_def)
  have h2: "map_of ?props ''stale'' = None" by simp
  have h3: "\<not> startsWithColon ''stale''" by (simp add: startsWithColon_def)
  have h4: "distinct (map fst ?cur)" by simp
  have h5: "map_of ?cur ''stale'' = Some (Scalar (SNum 1))" by simp
  have h6: "\<not> isChildNode (Some (Scalar (SNum 1)))" by simp
  have h7: "\<not> truthy (map_of (deleteKeys (ignoredProps (noOptions \<lparr> deleteProps := True \<rparr>)) ?props)
                        PROP_jcrPrimaryType)"
    by (simp add: deleteKeys_def PROP_jcrPrimaryType_def)
  from deletion_gating [of noOptions ?props "''stale''" ?cur "Scalar (SNum 1)" None] h1 h2 h3 h4 h5 h6
  have a: "buildMutation noOptions ?cur ?props None =
           buildMutation noOptions (filter (\<lambda>kv. fst kv \<noteq> ''stale'') ?cur) ?props None"
    by blast
  from deletion_gating [of "noOptions \<lparr> deleteProps := True \<rparr>" ?props _ ?cur _ None] h7
  have b: "buildMutation (noOptions \<lparr> deleteProps := True \<rparr>) ?cur ?props None =
           buildMutation (noOptions \<lparr> deleteProps := True, deleteProps := False \<rparr>) ?cur ?props None"
    by blast
  from h1 h2 h3 h4 h5 h6 h7 a b show ?thesis by blast
qed

text \<open>
  The gate is not idle: with \<open>deleteProps\<close> set and a primary type in the desired
  tree, the same current data gives the field \<open>stale@Delete\<close>.
\<close>

lemma deletion_emitted_example:
  "buildMutation (noOptions \<lparr> deleteProps := True \<rparr>)
     [(''jcr:primaryType'', Scalar (SStr ''nt:unstructured'')), (''stale'', Scalar (SNum 1))]
     [(''jcr:primaryType'', Scalar (SStr ''nt:unstructured''))] None =
   Inr ([], [], [(''stale@Delete'', Scalar (SStr []))])"
  by code_simp


subsection \<open>The order of the child writes\<close>

lemma buildMutation_childProps:
  assumes "buildMutation options currentData0 properties0 order = Inr (childProps, ctd, fd)"
  shows "childProps = filter isChildEntry (deleteKeys (ignoredProps options) properties0)"
proof -
  let ?cur = "deleteKeys (ignoredProps options) currentData0"
  let ?p1 = "deleteKeys (ignoredProps options) properties0"
  obtain p ctd0 fd0 where sc: "scanCurrent options ?cur ?p1 [] [] = (p, ctd0, fd0)"
    by (cases "scanCurrent options ?cur ?p1 [] []") auto
  from assms sc obtain fd1 where
    dp: "diffProperties ?cur p p ([], fd0) = Inr (childProps, fd1)"
    by (auto simp: buildMutation_def Let_def split: sum.splits prod.splits)
  from diffProperties_childProps [OF dp] have "childProps = filter isChildEntry p"
    by simp
  also have "\<dots> = filter isChildEntry ?p1"
    using scanCurrent_children [of options ?cur ?p1 "[]" "[]"] sc by simp
  finally show ?thesis .
qed

lemma buildMutation_order:
  assumes "buildMutation options currentData0 properties0 (Some n) = Inr (childProps, ctd, fd)"
  shows "\<exists>f. fd = f @ [('':order'', Scalar (SStr (natToString n)))]"
  using assms
  by (auto simp: buildMutation_def Let_def split: sum.splits prod.splits)

text \<open>A level that is processed with an order index posts it as the last field of its form.\<close>

lemma processNode_order_write:
  assumes "processNode t options jcrPath properties0 (Some n) s = (Returned, s')"
  shows "\<exists>f more. requests s' =
           requests s @ GetJSON (fetchUrl jcrPath 0)
             # Post jcrPath (f @ [('':order'', Scalar (SStr (natToString n)))]) # more"
proof (cases rule: processNode_cases [where t = t and jcrPath = jcrPath and s = s
        and options = options and ?properties0.0 = properties0 and order = "Some n"])
  case (FetchError err s1)
  with assms show ?thesis by simp
next
  case (BuildError currentData0 s1 err)
  with assms show ?thesis by simp
next
  case (PostError currentData0 s1 childProps childrenToDelete formData err s2)
  with assms show ?thesis by simp
next
  case (DeleteError currentData0 s1 childProps childrenToDelete formData s2 err s3)
  with assms show ?thesis by simp
next
  case (Continue currentData0 s1 childProps childrenToDelete formData s2 s3)
  from buildMutation_order [OF Continue(2)] obtain f where
    f: "formData = f @ [('':order'', Scalar (SStr (natToString n)))]" by blast
  then have "formData \<noteq> []" by simp
  from processNode_post [OF Continue(1) Continue(2) this] assms f show ?thesis by auto
qed


text \<open>
  C4, as stated: with the desired children \<open>b\<close>, \<open>a\<close> and the current order \<open>a\<close>, \<open>b\<close>
  the child write for \<open>a\<close> would be issued before the one for \<open>b\<close>. The requests of
  the call on this scenario show the write for \<open>b\<close> first, as the desired order has
  it, and then the write for \<open>a\<close>.
\<close>

theorem child_write_order_counterexample:
  "requests (snd (saveJcrProperties
      (tableTransport [(fetchUrl ''/r'' 0, [(''a'', Node []), (''b'', Node [])])])
      ''/r'' [(''b'', Node []), (''a'', Node [])] noOptions [])) =
   [GetJSON (fetchUrl ''/r'' 0),
    GetJSON (fetchUrl ''/r/b'' 0), Post ''/r/b'' [('':order'', Scalar (SStr ''0''))],
    GetJSON (fetchUrl ''/r/a'' 0), Post ''/r/a'' [('':order'', Scalar (SStr ''1''))]]"
  by code_simp

text \<open>
  C4, amended: with the desired children \<open>b\<close>, \<open>a\<close> (in this order) and the current
  order \<open>a\<close>, \<open>b\<close>, a call that completes has processed the child \<open>b\<close> and then, in
  the session that \<open>b\<close> left, the child \<open>a\<close>: every request for \<open>b\<close> and below it
  precedes every request for \<open>a\<close>. Each child is fetched and then written with a
  form whose last field is \<open>:order\<close>, with the position of the child among the
  desired children (0 for \<open>b\<close>, 1 for \<open>a\<close>).
\<close>

theorem child_writes_in_desired_order:
  assumes fin: "saveJcrProperties t jcrPath [(b, Node cb), (a, Node ca)] options reqs = (Returned, s')"
    and cur: "fetchJSON t reqs (fetchUrl jcrPath 0) = Inr currentData0"
    and ord: "filter (\<lambda>k. k = a \<or> k = b) (map fst currentData0) = [a, b]"
    and names: "a \<noteq> b" "b \<noteq> []" "\<not> startsWithColon a" "\<not> startsWithColon b"
      "a \<notin> set (ignoredProps options)" "b \<notin> set (ignoredProps options)"
  shows "\<exists>s0 sb fb mb fa ma.
      processNode t options (joinPath jcrPath b) cb (Some 0) s0 = (Returned, sb) \<and>
      processNode t options (joinPath jcrPath a) ca (Some 1) sb = (Returned, s') \<and>
      requests sb = requests s0 @ GetJSON (fetchUrl (joinPath jcrPath b) 0)
        # Post (joinPath jcrPath b) (fb @ [('':order'', Scalar (SStr ''0''))]) # mb \<and>
      requests s' = requests sb @ GetJSON (fetchUrl (joinPath jcrPath a) 0)
        # Post (joinPath jcrPath a) (fa @ [('':order'', Scalar (SStr ''1''))]) # ma"
proof -
  let ?s = "\<lparr> requests = reqs, changes = [] \<rparr>"
  let ?props = "[(b, Node cb), (a, Node ca)]"
  let ?ign = "ignoredProps options"
  from fin have pn: "processNode t options jcrPath ?props None ?s = (Returned, s')"
    by (auto simp: saveJcrProperties_def split: prod.splits outcome.splits)
  have fc: "fst (fetchCurrent t jcrPath ?s) = Inr currentData0"
    using cur by (simp add: fetchCurrent_def fetchJcrNode_def Let_def FETCH_FILTER_def
        FETCH_FILTER_CHILDREN_def FETCH_RECURSIVE_def)
  have kids: "filter isChildEntry (deleteKeys ?ign ?props) = ?props"
    using names by (simp add: deleteKeys_def isChildEntry_def)
  have keys: "filter (\<lambda>v. truthy (map_of ?props v)) (map fst (deleteKeys ?ign currentData0)) = [a, b]"
  proof -
    have "(\<lambda>v. truthy (map_of ?props v)) = (\<lambda>k. k = a \<or> k = b)"
      by (auto simp: fun_eq_iff)
    moreover have "filter (\<lambda>k. k = a \<or> k = b) (map fst (deleteKeys ?ign currentData0)) =
        filter (\<lambda>k. k = a \<or> k = b) (map fst currentData0)"
      using names(5,6) by (induction currentData0) (auto simp: deleteKeys_def)
    ultimately show ?thesis using ord by simp
  qed
  have reorder: "needsReorder (deleteKeys ?ign currentData0) ?props"
    using keys names(1) by (simp add: needsReorder_def)
  have nat0: "natToString 0 = ''0''" and nat1: "natToString (Suc 0) = ''1''"
    by (simp_all add: natToString.simps digitChar_def)
  show ?thesis
  proof (cases rule: processNode_cases [where t = t and jcrPath = jcrPath and s = ?s
        and options = options and ?properties0.0 = ?props and order = None])
    case (FetchError err s1)
    with pn show ?thesis by simp
  next
    case (BuildError c0 s1 err)
    with pn show ?thesis by simp
  next
    case (PostError c0 s1 childProps childrenToDelete formData err s2)
    with pn show ?thesis by simp
  next
    case (DeleteError c0 s1 childProps childrenToDelete formData s2 err s3)
    with pn show ?thesis by simp
  next
    case (Continue c0 s1 childProps childrenToDelete formData s2 s3)
    from Continue(1) fc have c0: "c0 = currentData0" by simp
    from buildMutation_childProps [OF Continue(2)] kids have cp: "childProps = ?props" by simp
    from Continue(5) pn cp c0 reorder names(2)
    have pc: "processChildren t options jcrPath True 0 ?props s3 = (Returned, s')" by simp
    obtain r sb where b1: "processNode t options (joinPath jcrPath b) cb (Some 0) s3 = (r, sb)"
      by (cases "processNode t options (joinPath jcrPath b) cb (Some 0) s3")
    with pc have rb: "r = Returned" by (cases r) auto
    with pc b1 have a1: "processNode t options (joinPath jcrPath a) ca (Some (Suc 0)) sb = (Returned, s')"
      by (auto split: prod.splits outcome.splits)
    from processNode_order_write [OF b1 [unfolded rb]] nat0 obtain fb mb where
      wb: "requests sb = requests s3 @ GetJSON (fetchUrl (joinPath jcrPath b) 0)
             # Post (joinPath jcrPath b) (fb @ [('':order'', Scalar (SStr ''0''))]) # mb" by auto
    from processNode_order_write [OF a1] nat1 obtain fa ma where
      wa: "requests s' = requests sb @ GetJSON (fetchUrl (joinPath jcrPath a) 0)
             # Post (joinPath jcrPath a) (fa @ [('':order'', Scalar (SStr ''1''))]) # ma" by auto
    from a1 have a1': "processNode t options (joinPath jcrPath a) ca (Some 1) sb = (Returned, s')"
      by simp
    from b1 [unfolded rb] a1' wb wa show ?thesis by blast
  qed
qed

theorem child_writes_in_desired_order_witness:
  "saveJcrProperties (tableTransport [(fetchUrl ''/r'' 0, [(''a'', Node []), (''b'', Node [])])])
      ''/r'' [(''b'', Node []), (''a'', Node [])] noOptions [] =
     (Returned,
      \<lparr> requests =
          [GetJSON (fetchUrl ''/r'' 0),
           GetJSON (fetchUrl ''/r/b'' 0), Post ''/r/b'' [('':order'', Scalar (SStr ''0''))],
           GetJSON (fetchUrl ''/r/a'' 0), Post ''/r/a'' [('':order'', Scalar (SStr ''1''))]],
        changes = [''/r/b'', ''/r/a''] \<rparr>) \<and>
   fetchJSON (tableTransport [(fetchUrl ''/r'' 0, [(''a'', Node []), (''b'', Node [])])])
      [] (fetchUrl ''/r'' 0) = Inr [(''a'', Node []), (''b'', Node [])] \<and>
   filter (\<lambda>k. k = ''a'' \<or> k = ''b'') (map fst [(''a'', Node []), (''b'', Node [])]) = [''a'', ''b''] \<and>
   (\<exists>s0 sb fb mb fa ma.
      processNode (tableTransport [(fetchUrl ''/r'' 0, [(''a'', Node []), (''b'', Node [])])])
        noOptions (joinPath ''/r'' ''b'') [] (Some 0) s0 = (Returned, sb) \<and>
      processNode (tableTransport [(fetchUrl ''/r'' 0, [(''a'', Node []), (''b'', Node [])])])
        noOptions (joinPath ''/r'' ''a'') [] (Some 1) sb =
        (Returned,
         \<lparr> requests =
             [GetJSON (fetchUrl ''/r'' 0),
              GetJSON (fetchUrl ''/r/b'' 0), Post ''/r/b'' [('':order'', Scalar (SStr ''0''))],
              GetJSON (fetchUrl ''/r/a'' 0), Post ''/r/a'' [('':order'', Scalar (SStr ''1''))]],
           changes = [''/r/b'', ''/r/a''] \<rparr>) \<and>
      requests sb = requests s0 @ GetJSON (fetchUrl (joinPath ''/r'' ''b'') 0)
        # Post (joinPath ''/r'' ''b'') (fb @ [('':order'', Scalar (SStr ''0''))]) # mb \<and>
      [GetJSON (fetchUrl ''/r'' 0),
       GetJSON (fetchUrl ''/r/b'' 0), Post ''/r/b'' [('':order'', Scalar (SStr ''0''))],
       GetJSON (fetchUrl ''/r/a'' 0), Post ''/r/a'' [('':order'', Scalar (SStr ''1''))]] =
      requests sb @ GetJSON (fetchUrl (joinPath ''/r'' ''a'') 0)
        # Post (joinPath ''/r'' ''a'') (fa @ [('':order'', Scalar (SStr ''1''))]) # ma)"
proof -
  let ?t = "tableTransport [(fetchUrl ''/r'' 0, [(''a'', Node []), (''b'', Node [])])]"
  let ?s' = "\<lparr> requests =
          [GetJSON (fetchUrl ''/r'' 0),
           GetJSON (fetchUrl ''/r/b'' 0), Post ''/r/b'' [('':order'', Scalar (SStr ''0''))],
           GetJSON (fetchUrl ''/r/a'' 0), Post ''/r/a'' [('':order'', Scalar (SStr ''1''))]],
        changes = [''/r/b'', ''/r/a''] \<rparr>"
  have h1: "saveJcrProperties ?t ''/r'' [(''b'', Node []), (''a'', Node [])] noOptions [] = (Returned, ?s')"
    by code_simp
  have h2: "fetchJSON ?t [] (fetchUrl ''/r'' 0) = Inr [(''a'', Node []), (''b'', Node [])]"
    by (simp add: tableTransport_def)
  have h3: "filter (\<lambda>k. k = ''a'' \<or> k = ''b'') (map fst [(''a'', Node []), (''b'', Node [])]) = [''a'', ''b'']"
    by simp
  have h4: "''a'' \<noteq> ''b''" "''b'' \<noteq> []" "\<not> startsWithColon ''a''" "\<not> startsWithColon ''b''"
    "''a'' \<notin> set (ignoredProps noOptions)" "''b'' \<notin> set (ignoredProps noOptions)"
    by (simp_all add: startsWithColon_def ignoredProps_def internalProps_def noOptions_def)
  from child_writes_in_desired_order [OF h1 h2 h3 h4] h1 h2 h3
  show ?thesis by simp
qed


subsection \<open>Failures\<close>


















subsection \<open>A desired tree that agrees with the remote\<close>

lemma writes_append: "writes (xs @ ys) = writes xs @ writes ys"
  by (simp add: writes_def)




















subsection \<open>A desired tree that differs in one scalar field\<close>











subsection \<open>Diff minimality\<close>





subsection \<open>The round trip of a scalar through the codec\<close>
























end
